theory Spec2Isabelle
  imports Main "HOL-Library.AList" "HOL-Library.Sublist" "HOL-Library.Word"
begin

section \<open>The project scaffolder \<^verbatim>\<open>scripts/create-new-app.js\<close>\<close>

text \<open>
  The script asks five questions, creates the project directory, copies a template tree
  into it, rewrites \<^verbatim>\<open>package.json\<close> and \<^verbatim>\<open>README.md\<close>, runs the package manager and
  git, and prints a summary.  The model below follows the script function by function.
  What the script gets from its environment is a parameter of the model: the lines typed
  at the prompts, the file system, the working directory, the behaviour of the
  subprocesses, and the JSON codec of the runtime.  The runtime is Node.js on a POSIX
  system.  Every question is answered: a run whose input ends at a prompt is outside the
  model.
\<close>

subsection \<open>Strings of the runtime\<close>

text \<open>
  A string of the runtime is a sequence of UTF-16 code units.  \<open>js s\<close> is the string
  whose code units are the ASCII characters of \<open>s\<close>; the texts of the script are
  written this way.
\<close>

type_synonym code_unit = "16 word"

type_synonym jstring = "code_unit list"

definition js :: "string \<Rightarrow> jstring" where
  "js s = map of_char s"

text \<open>
  \<^verbatim>\<open>String.prototype.trim\<close> strips white space and line terminators at both ends, and
  \<^verbatim>\<open>parseInt\<close> skips the same characters at the start: tab, line feed, vertical tab,
  form feed, carriage return, space, no-break space (U+00A0), the byte order mark
  (U+FEFF), the line and paragraph separators (U+2028, U+2029), and the other space
  separators of Unicode (U+1680, U+2000 to U+200A, U+202F, U+205F, U+3000).
\<close>

definition is_space :: "code_unit \<Rightarrow> bool" where
  "is_space c \<longleftrightarrow>
     c \<in> set [0x09, 0x0A, 0x0B, 0x0C, 0x0D, 0x20, 0xA0, 0x1680, 0x2028, 0x2029, 0x202F,
              0x205F, 0x3000, 0xFEFF] \<or>
     (0x2000 \<le> c \<and> c \<le> 0x200A)"

definition trim :: "jstring \<Rightarrow> jstring" where
  "trim s = rev (dropWhile is_space (rev (dropWhile is_space s)))"

text \<open>
  \<^verbatim>\<open>parseInt(string)\<close> with no radix: skip leading white space, read an optional sign, switch
  to radix 16 after a \<^verbatim>\<open>0x\<close> or \<^verbatim>\<open>0X\<close> prefix, and take the longest prefix of digits of the
  radix (\<^verbatim>\<open>0\<close> to \<^verbatim>\<open>9\<close>, and the letters from \<^verbatim>\<open>a\<close> on in either case).  No digit gives
  \<^verbatim>\<open>NaN\<close> (here \<open>None\<close>); whatever follows the digits is ignored.
  The result is kept as an unbounded integer: the script only compares it with the small
  indices of its arrays, and rounding to a double moves no integer across them.
\<close>

definition digit_val :: "code_unit \<Rightarrow> nat option" where
  "digit_val c =
     (let n = unat c in
      if 48 \<le> n \<and> n \<le> 57 then Some (n - 48)
      else if 97 \<le> n \<and> n \<le> 122 then Some (n - 87)
      else if 65 \<le> n \<and> n \<le> 90 then Some (n - 55)
      else None)"

definition radix_digit :: "nat \<Rightarrow> code_unit \<Rightarrow> bool" where
  "radix_digit R c = (case digit_val c of Some d \<Rightarrow> d < R | None \<Rightarrow> False)"

definition digit_of :: "code_unit \<Rightarrow> nat" where
  "digit_of c = (case digit_val c of Some d \<Rightarrow> d | None \<Rightarrow> 0)"

definition parseInt :: "jstring \<Rightarrow> int option" where
  "parseInt input =
     (let s = dropWhile is_space input;
          negative = (take 1 s = js ''-'');
          s1 = (if take 1 s = js ''+'' \<or> take 1 s = js ''-'' then drop 1 s else s);
          hex = (take 2 s1 = js ''0x'' \<or> take 2 s1 = js ''0X'');
          R = (if hex then 16 else 10);
          s2 = (if hex then drop 2 s1 else s1);
          z = takeWhile (radix_digit R) s2
      in if z = [] then None
         else Some ((if negative then - 1 else 1) *
                    int (foldl (\<lambda>a c. a * R + digit_of c) 0 z)))"

text \<open>
  \<^verbatim>\<open>array[n]\<close> for a number \<open>n\<close>: the element when \<open>n\<close> is an index of the array,
  \<^verbatim>\<open>undefined\<close> (here \<open>None\<close>) otherwise, also for \<^verbatim>\<open>NaN\<close>.  \<^verbatim>\<open>x || d\<close> on a string or
  \<^verbatim>\<open>undefined\<close>: \<open>d\<close> when \<open>x\<close> is \<^verbatim>\<open>undefined\<close> or the empty string.
\<close>

definition array_get :: "'a list \<Rightarrow> int option \<Rightarrow> 'a option" where
  "array_get xs n =
     (case n of
        None \<Rightarrow> None
      | Some i \<Rightarrow> if 0 \<le> i \<and> i < int (length xs) then Some (xs ! nat i) else None)"

definition minus1 :: "int option \<Rightarrow> int option" where
  "minus1 n = map_option (\<lambda>i. i - 1) n"

definition or_default :: "jstring option \<Rightarrow> jstring \<Rightarrow> jstring" where
  "or_default x d = (case x of None \<Rightarrow> d | Some s \<Rightarrow> if s = [] then d else s)"

text \<open>
  \<^verbatim>\<open>subject.replace(/token/g, replacement)\<close> for a literal, non-empty token: the matches
  are the leftmost non-overlapping occurrences of the token, and each is replaced by the
  expansion of the replacement text, in which \<^verbatim>\<open>$$\<close> stands for a dollar sign,
  \<^verbatim>\<open>$&\<close> for the matched text, \<^verbatim>\<open>$`\<close> for the part of the subject before the match and
  \<^verbatim>\<open>$'\<close> for the part after it.  The patterns of the script have no capture group, so
  every other use of the dollar sign stands for itself.  The dollar sign is the code unit
  \<^verbatim>\<open>0x24\<close>; the ampersand, the backtick and the apostrophe are \<^verbatim>\<open>0x26\<close>, \<^verbatim>\<open>0x60\<close> and
  \<^verbatim>\<open>0x27\<close>.
\<close>

fun getSubstitution :: "jstring \<Rightarrow> jstring \<Rightarrow> jstring \<Rightarrow> jstring \<Rightarrow> jstring" where
  "getSubstitution matched preceding following [] = []"
| "getSubstitution matched preceding following [c] = [c]"
| "getSubstitution matched preceding following (c # d # r) =
     (if c = 0x24 \<and> d = 0x24 then 0x24 # getSubstitution matched preceding following r
      else if c = 0x24 \<and> d = 0x26 then matched @ getSubstitution matched preceding following r
      else if c = 0x24 \<and> d = 0x60 then preceding @ getSubstitution matched preceding following r
      else if c = 0x24 \<and> d = 0x27 then following @ getSubstitution matched preceding following r
      else c # getSubstitution matched preceding following (d # r))"

function replace_from :: "jstring \<Rightarrow> jstring \<Rightarrow> jstring \<Rightarrow> jstring \<Rightarrow> jstring" where
  "replace_from token replacement preceding [] = []"
| "replace_from token replacement preceding (c # cs) =
     (if token \<noteq> [] \<and> prefix token (c # cs)
      then getSubstitution token preceding (drop (length token) (c # cs)) replacement
           @ replace_from token replacement (preceding @ token) (drop (length token) (c # cs))
      else c # replace_from token replacement (preceding @ [c]) cs)"
  by pat_completeness auto
termination
  by (relation "measure (\<lambda>(t, r, b, s). length s)") (auto simp: neq_Nil_conv)

definition replace_all :: "jstring \<Rightarrow> jstring \<Rightarrow> jstring \<Rightarrow> jstring" where
  "replace_all token replacement subject = replace_from token replacement [] subject"

subsection \<open>Paths\<close>

text \<open>
  A path is the list of its components below the root.  \<^verbatim>\<open>path.join(base, s)\<close> on an
  absolute base: the components of \<open>s\<close> (its parts between slashes, the code unit
  \<^verbatim>\<open>0x2F\<close>) are appended one by one, an empty component or \<^verbatim>\<open>.\<close> is dropped and \<^verbatim>\<open>..\<close>
  removes the last component (the root is its own parent).
\<close>

type_synonym path = "jstring list"

fun split_on :: "code_unit \<Rightarrow> jstring \<Rightarrow> jstring list" where
  "split_on sep [] = [[]]"
| "split_on sep (c # cs) =
     (if c = sep then [] # split_on sep cs
      else (case split_on sep cs of
              [] \<Rightarrow> [[c]]
            | seg # segs \<Rightarrow> (c # seg) # segs))"

definition join_step :: "path \<Rightarrow> jstring \<Rightarrow> path" where
  "join_step p seg =
     (if seg = [] \<or> seg = js ''.'' then p
      else if seg = js ''..'' then butlast p
      else p @ [seg])"

definition path_join :: "path \<Rightarrow> jstring \<Rightarrow> path" where
  "path_join base s = foldl join_step base (split_on 0x2F s)"

definition path_str :: "path \<Rightarrow> jstring" where
  "path_str p = (if p = [] then js ''/'' else concat (map (\<lambda>seg. js ''/'' @ seg) p))"

text \<open>
  The text \<^verbatim>\<open>path.join\<close> returns keeps one slash at its end when the joined arguments end
  in a slash and the path is not the root.  The script prints this text, and hands it to
  the file system for its first two calls.  A \<open>pathname\<close> is such a text: the path it
  names, and whether it ends in a slash.
\<close>

record pathname =
  segments :: path
  trailing_slash :: bool

definition ends_in_slash :: "jstring \<Rightarrow> bool" where
  "ends_in_slash s \<longleftrightarrow> s \<noteq> [] \<and> last s = 0x2F"

definition path_join_name :: "path \<Rightarrow> jstring \<Rightarrow> pathname" where
  "path_join_name base s =
     \<lparr>segments = path_join base s,
      trailing_slash = (ends_in_slash s \<and> path_join base s \<noteq> [])\<rparr>"

definition pathname_str :: "pathname \<Rightarrow> jstring" where
  "pathname_str n = path_str (segments n) @ (if trailing_slash n then js ''/'' else [])"

subsection \<open>The file system\<close>

text \<open>
  The file system is a finite table from paths to nodes: a regular file with its
  contents, or a directory.  The table is read through \<open>map_of\<close>; a write replaces the
  entry of its path or adds one.  The contents of a file are the text the runtime reads
  from it (the files are taken to hold valid UTF-8, so that writing a text and reading
  it gives the same text).  The names in a table are names of the operating system: not
  empty, not \<^verbatim>\<open>.\<close> or \<^verbatim>\<open>..\<close>, and with no slash and no NUL in them.  Symbolic links,
  permissions, limits on the length of a name and the other failures of the operating
  system are not modelled.
\<close>

datatype node = File jstring | Dir

type_synonym fs = "(path \<times> node) list"

text \<open>
  Errors: \<open>Error m\<close> is the script's own \<^verbatim>\<open>new Error(m)\<close>; \<open>SystemError code p\<close> is an
  error of a file operation on \<open>p\<close>; \<open>CallError code call\<close> is an error of a system call
  that has no path; \<open>SyntaxError\<close> is thrown by \<^verbatim>\<open>JSON.parse\<close>, and \<open>TypeError\<close> by a
  property assignment on \<^verbatim>\<open>null\<close> and by a file operation on a path with a NUL in it.
  The code of a failed operation is read off the table: an entry that is missing is
  \<^verbatim>\<open>ENOENT\<close>, also below a regular file.
\<close>

datatype error =
    Error jstring
  | SystemError jstring path
  | CallError jstring jstring
  | SyntaxError
  | TypeError

definition existsSync :: "path \<Rightarrow> fs \<Rightarrow> bool" where
  "existsSync p t \<longleftrightarrow> map_of t p \<noteq> None"

text \<open>
  \<^verbatim>\<open>fs.mkdirSync(p, { recursive: true })\<close> creates \<open>p\<close> and every missing ancestor.  A
  directory that is there already is left alone; a regular file in the way is an error.
\<close>

fun mkdir_each :: "path \<Rightarrow> path list \<Rightarrow> fs \<Rightarrow> error + fs" where
  "mkdir_each p [] t = Inr t"
| "mkdir_each p (q # qs) t =
     (case map_of t q of
        None \<Rightarrow> mkdir_each p qs (AList.update q Dir t)
      | Some Dir \<Rightarrow> mkdir_each p qs t
      | Some (File c) \<Rightarrow>
          Inl (SystemError (if q = p then js ''EEXIST'' else js ''ENOTDIR'') p))"

definition mkdirSync :: "path \<Rightarrow> fs \<Rightarrow> error + fs" where
  "mkdirSync p t = mkdir_each p (prefixes p) t"

text \<open>
  The two calls on the text of the project path.  A text with a NUL in it names nothing:
  \<^verbatim>\<open>fs.existsSync\<close> answers no, and \<^verbatim>\<open>fs.mkdirSync\<close> throws before it touches the file
  system.  A text that ends in a slash names a directory only: a regular file of that
  name is not found by \<^verbatim>\<open>fs.existsSync\<close>, and is in the way of \<^verbatim>\<open>fs.mkdirSync\<close>.
\<close>

definition has_nul :: "pathname \<Rightarrow> bool" where
  "has_nul n \<longleftrightarrow> list_ex (\<lambda>seg. 0 \<in> set seg) (segments n)"

definition existsSync_name :: "pathname \<Rightarrow> fs \<Rightarrow> bool" where
  "existsSync_name n t \<longleftrightarrow>
     \<not> has_nul n \<and>
     (case map_of t (segments n) of
        None \<Rightarrow> False
      | Some Dir \<Rightarrow> True
      | Some (File c) \<Rightarrow> \<not> trailing_slash n)"

definition mkdirSync_name :: "pathname \<Rightarrow> fs \<Rightarrow> error + fs" where
  "mkdirSync_name n t =
     (if has_nul n then Inl TypeError
      else (case map_of t (segments n) of
              Some (File c) \<Rightarrow>
                Inl (SystemError (if trailing_slash n then js ''ENOTDIR'' else js ''EEXIST'')
                       (segments n))
            | _ \<Rightarrow> mkdirSync (segments n) t))"

text \<open>
  \<^verbatim>\<open>fs.readdirSync(p, { withFileTypes: true })\<close>: one entry per child of the directory
  \<open>p\<close>, with its name and whether it is a directory.
\<close>

record dirent =
  entry_name :: jstring
  is_directory :: bool

definition children :: "path \<Rightarrow> fs \<Rightarrow> path list" where
  "children p t = filter (\<lambda>k. k \<noteq> [] \<and> butlast k = p) (remdups (map fst t))"

definition readdirSync :: "path \<Rightarrow> fs \<Rightarrow> error + dirent list" where
  "readdirSync p t =
     (case map_of t p of
        None \<Rightarrow> Inl (SystemError (js ''ENOENT'') p)
      | Some (File c) \<Rightarrow> Inl (SystemError (js ''ENOTDIR'') p)
      | Some Dir \<Rightarrow>
          Inr (map (\<lambda>k. \<lparr>entry_name = last k, is_directory = (map_of t k = Some Dir)\<rparr>)
                 (children p t)))"

definition readFileSync :: "path \<Rightarrow> fs \<Rightarrow> error + jstring" where
  "readFileSync p t =
     (case map_of t p of
        None \<Rightarrow> Inl (SystemError (js ''ENOENT'') p)
      | Some Dir \<Rightarrow> Inl (SystemError (js ''EISDIR'') p)
      | Some (File c) \<Rightarrow> Inr c)"

definition writeFileSync :: "path \<Rightarrow> jstring \<Rightarrow> fs \<Rightarrow> error + fs" where
  "writeFileSync p c t =
     (case map_of t p of
        Some Dir \<Rightarrow> Inl (SystemError (js ''EISDIR'') p)
      | Some (File old) \<Rightarrow> Inr (AList.update p (File c) t)
      | None \<Rightarrow>
          if p \<noteq> [] \<and> map_of t (butlast p) = Some Dir
          then Inr (AList.update p (File c) t)
          else Inl (SystemError (js ''ENOENT'') p))"

definition copyFileSync :: "path \<Rightarrow> path \<Rightarrow> fs \<Rightarrow> error + fs" where
  "copyFileSync src dest t =
     (case readFileSync src t of
        Inl e \<Rightarrow> Inl e
      | Inr c \<Rightarrow> writeFileSync dest c t)"

text \<open>
  A table is well formed when the parent of every entry is a directory of the table.
\<close>

definition wf_fs :: "fs \<Rightarrow> bool" where
  "wf_fs t \<longleftrightarrow> list_all (\<lambda>k. k = [] \<or> map_of t (butlast k) = Some Dir) (map fst t)"

subsection \<open>JSON values\<close>

text \<open>
  The values \<^verbatim>\<open>JSON.parse\<close> returns.  A number is a double of the runtime, given by its
  64 bits; the script never looks into one.  \<^verbatim>\<open>JSON.parse\<close> returns \<^verbatim>\<open>Infinity\<close> for a
  number too large for a double.  An object is the list of its properties in the order
  \<^verbatim>\<open>JSON.stringify\<close> writes them.
\<close>

type_synonym js_number = "64 word"


datatype json =
    JNull
  | JBool bool
  | JNum js_number
  | JStr jstring
  | JArr "json list"
  | JObj "(jstring \<times> json) list"

text \<open>
  The assignment \<^verbatim>\<open>value.key = s\<close> in sloppy mode (the script is a CommonJS module with
  no \<^verbatim>\<open>'use strict'\<close>), as far as \<^verbatim>\<open>JSON.stringify\<close> can tell afterwards: on an
  object the property is overwritten in place or appended; on an array the new property
  is not an element, and is not written back; on a number, a string or a boolean the
  assignment does nothing; on \<^verbatim>\<open>null\<close> it throws a TypeError.
\<close>

definition set_property :: "json \<Rightarrow> jstring \<Rightarrow> jstring \<Rightarrow> error + json" where
  "set_property v key s =
     (case v of
        JNull \<Rightarrow> Inl TypeError
      | JObj props \<Rightarrow> Inr (JObj (AList.update key (JStr s) props))
      | _ \<Rightarrow> Inr v)"

definition get_property :: "json \<Rightarrow> jstring \<Rightarrow> json option" where
  "get_property v key = (case v of JObj props \<Rightarrow> map_of props key | _ \<Rightarrow> None)"

subsection \<open>The environment and the state of a run\<close>

text \<open>
  \<open>execSync cmd dir t\<close> is the subprocess \<open>cmd\<close> run in \<open>dir\<close> on the file system
  \<open>t\<close>: whether it exited with status 0 (anything else makes \<^verbatim>\<open>execSync\<close> throw), and the
  file system it leaves.  \<open>JSON_parse\<close> is \<^verbatim>\<open>JSON.parse\<close> (\<open>None\<close> for a SyntaxError)
  and \<open>JSON_stringify\<close> is \<^verbatim>\<open>JSON.stringify(v, null, 2)\<close>.  \<open>runtime_message\<close> is the
  text the runtime gives to the \<^verbatim>\<open>message\<close> of an error of its own; the message of the
  script's own error is the text the script gave it.
\<close>

record env =
  cwd :: path
  dirname :: path
  execSync :: "jstring \<Rightarrow> path \<Rightarrow> fs \<Rightarrow> bool \<times> fs"
  JSON_parse :: "jstring \<Rightarrow> json option"
  JSON_stringify :: "json \<Rightarrow> jstring"
  runtime_message :: "error \<Rightarrow> jstring"

definition message :: "env \<Rightarrow> error \<Rightarrow> jstring" where
  "message env e = (case e of Error m \<Rightarrow> m | _ \<Rightarrow> runtime_message env e)"

text \<open>
  \<^verbatim>\<open>process.cwd()\<close> returns the working directory, and throws when that directory has
  been removed.  The root is always there.
\<close>

definition process_cwd :: "env \<Rightarrow> fs \<Rightarrow> error + path" where
  "process_cwd env t =
     (if cwd env = [] \<or> map_of t (cwd env) = Some Dir then Inr (cwd env)
      else Inl (CallError (js ''ENOENT'') (js ''uv_cwd'')))"

text \<open>The lines typed at the five prompts, as \<^verbatim>\<open>rl.question\<close> hands them over.\<close>

record answers =
  name_line :: jstring
  description_line :: jstring
  type_line :: jstring
  database_line :: jstring
  auth_line :: jstring

text \<open>
  What a run does besides changing files, in order: the calls of the logging helpers
  (the text without its colour codes and glyphs), the questions asked, and the
  subprocesses started.
\<close>

datatype event =
    Log jstring jstring
  | LogError jstring
  | LogSuccess jstring
  | LogInfo jstring
  | LogWarning jstring
  | Blank
  | Question jstring
  | ExecSync jstring path

record world =
  files :: fs
  events :: "event list"

definition emit :: "event list \<Rightarrow> world \<Rightarrow> world" where
  "emit es w = w\<lparr>events := events w @ es\<rparr>"

text \<open>A function of the script returns, or throws with the state it leaves behind.\<close>

datatype result = Ok world | Throw error world

subsection \<open>The prompts\<close>

text \<open>
  Each prompt opens a line reader, asks its question and resolves with a value computed
  from the line it is given.
\<close>

definition getProjectName :: "jstring \<Rightarrow> world \<Rightarrow> jstring \<times> world" where
  "getProjectName answer w =
     (trim answer, emit [Question (js ''What is the name of your project? '')] w)"

definition getProjectDescription :: "jstring \<Rightarrow> world \<Rightarrow> jstring \<times> world" where
  "getProjectDescription answer w =
     (trim answer, emit [Question (js ''Describe your project (optional): '')] w)"

definition project_types :: "jstring list" where
  "project_types = [js ''basic-crud'', js ''dashboard'', js ''plugin'', js ''custom'']"

definition getProjectType :: "jstring \<Rightarrow> world \<Rightarrow> jstring \<times> world" where
  "getProjectType answer w =
     (let w1 = emit [LogInfo (js ''Available project types:''),
                     Log (js ''  1. Basic CRUD App'') (js ''yellow''),
                     Log (js ''  2. Simple Dashboard'') (js ''yellow''),
                     Log (js ''  3. Plugin Starter'') (js ''yellow''),
                     Log (js ''  4. Custom (from scratch)'') (js ''yellow''),
                     Blank,
                     Question (js ''Choose a project type (1-4): '')] w;
          type = parseInt (trim answer)
      in (or_default (array_get project_types (minus1 type)) (js ''custom''), w1))"

definition database_options :: "jstring list" where
  "database_options = [js ''supabase'', js ''local'', js ''none'']"

definition getDatabaseConfig :: "jstring \<Rightarrow> world \<Rightarrow> jstring \<times> world" where
  "getDatabaseConfig answer w =
     (let w1 = emit [LogInfo (js ''Database configuration:''),
                     Log (js ''  1. Use Supabase (recommended)'') (js ''yellow''),
                     Log (js ''  2. Use local PostgreSQL'') (js ''yellow''),
                     Log (js ''  3. Skip database setup'') (js ''yellow''),
                     Blank,
                     Question (js ''Choose database option (1-3): '')] w;
          option = parseInt (trim answer)
      in (or_default (array_get database_options (minus1 option)) (js ''supabase''), w1))"

definition getAuthConfig :: "jstring \<Rightarrow> world \<Rightarrow> bool \<times> world" where
  "getAuthConfig answer w =
     (let w1 = emit [LogInfo (js ''Authentication configuration:''),
                     Log (js ''  1. Enable authentication (recommended)'') (js ''yellow''),
                     Log (js ''  2. Skip authentication setup'') (js ''yellow''),
                     Blank,
                     Question (js ''Choose auth option (1-2): '')] w;
          option = parseInt (trim answer)
      in (option = Some 1, w1))"

subsection \<open>Creating the directory and copying the template\<close>

definition createProjectDirectory :: "pathname \<Rightarrow> world \<Rightarrow> result" where
  "createProjectDirectory projectPath w =
     (if existsSync_name projectPath (files w)
      then Throw (Error (js ''Directory '' @ pathname_str projectPath
                         @ js '' already exists'')) w
      else (case mkdirSync_name projectPath (files w) of
              Inl e \<Rightarrow> Throw e w
            | Inr t \<Rightarrow>
                Ok (emit [LogSuccess (js ''Created project directory: ''
                                      @ pathname_str projectPath)]
                      (w\<lparr>files := t\<rparr>))))"

text \<open>
  The functions that follow join the project path with a name, or hand it to a
  subprocess as its working directory: they get the path it names.
  \<open>copyDirectory\<close> calls itself on every subdirectory it meets, and it reads the
  directories while it writes: nothing in the script bounds the recursion.  The first
  argument, the fuel, is the depth of nesting the run may reach; \<open>None\<close> is a run that
  needs more.
  A copy returns with the file system it made (\<open>Done\<close>), or throws and leaves what it
  had written (\<open>Failed\<close>).
\<close>

datatype copy_result = Done fs | Failed error fs

fun copyDirectory :: "nat \<Rightarrow> path \<Rightarrow> path \<Rightarrow> fs \<Rightarrow> copy_result option"
  and copyEntries :: "nat \<Rightarrow> path \<Rightarrow> path \<Rightarrow> dirent list \<Rightarrow> fs \<Rightarrow> copy_result option"
where
  "copyDirectory 0 src dest t = None"
| "copyDirectory (Suc n) src dest t =
     (case readdirSync src t of
        Inl e \<Rightarrow> Some (Failed e t)
      | Inr entries \<Rightarrow> copyEntries n src dest entries t)"
| "copyEntries n src dest [] t = Some (Done t)"
| "copyEntries n src dest (entry # entries) t =
     (let srcPath = src @ [entry_name entry];
          destPath = dest @ [entry_name entry]
      in if is_directory entry
         then (case mkdirSync destPath t of
                 Inl e \<Rightarrow> Some (Failed e t)
               | Inr t1 \<Rightarrow>
                   (case copyDirectory n srcPath destPath t1 of
                      None \<Rightarrow> None
                    | Some (Failed e t2) \<Rightarrow> Some (Failed e t2)
                    | Some (Done t2) \<Rightarrow> copyEntries n src dest entries t2))
         else (case copyFileSync srcPath destPath t of
                 Inl e \<Rightarrow> Some (Failed e t)
               | Inr t1 \<Rightarrow> copyEntries n src dest entries t1))"

definition template_path :: "env \<Rightarrow> jstring \<Rightarrow> path" where
  "template_path env projectType =
     path_join (path_join (path_join (dirname env) (js ''..'')) (js ''templates'')) projectType"

definition copyTemplateFiles :: "env \<Rightarrow> nat \<Rightarrow> path \<Rightarrow> jstring \<Rightarrow> world \<Rightarrow> result option" where
  "copyTemplateFiles env fuel projectPath projectType w =
     (let templatePath = template_path env projectType
      in if \<not> existsSync templatePath (files w)
         then Some (Ok (emit [LogWarning (js ''Template '' @ projectType
                                          @ js '' not found, using basic template'')] w))
         else (case copyDirectory fuel templatePath projectPath (files w) of
                 None \<Rightarrow> None
               | Some (Failed e t) \<Rightarrow> Some (Throw e (w\<lparr>files := t\<rparr>))
               | Some (Done t) \<Rightarrow>
                   Some (Ok (emit [LogSuccess (js ''Copied template files for '' @ projectType)]
                               (w\<lparr>files := t\<rparr>)))))"

subsection \<open>Rewriting the manifest and the README\<close>

record config =
  config_name :: jstring
  config_description :: jstring
  config_type :: jstring
  config_database :: jstring
  config_auth :: bool

definition update_package_json :: "env \<Rightarrow> path \<Rightarrow> config \<Rightarrow> world \<Rightarrow> result" where
  "update_package_json env projectPath cfg w =
     (let packageJsonPath = projectPath @ [js ''package.json'']
      in if existsSync packageJsonPath (files w)
         then (case readFileSync packageJsonPath (files w) of
                 Inl e \<Rightarrow> Throw e w
               | Inr text \<Rightarrow>
                   (case JSON_parse env text of
                      None \<Rightarrow> Throw SyntaxError w
                    | Some packageJson \<Rightarrow>
                        (case set_property packageJson (js ''name'') (config_name cfg) of
                           Inl e \<Rightarrow> Throw e w
                         | Inr v1 \<Rightarrow>
                             (case set_property v1 (js ''description'') (config_description cfg) of
                                Inl e \<Rightarrow> Throw e w
                              | Inr v2 \<Rightarrow>
                                  (case writeFileSync packageJsonPath (JSON_stringify env v2)
                                          (files w) of
                                     Inl e \<Rightarrow> Throw e w
                                   | Inr t \<Rightarrow> Ok (w\<lparr>files := t\<rparr>))))))
         else Ok w)"

definition update_readme :: "path \<Rightarrow> config \<Rightarrow> world \<Rightarrow> result" where
  "update_readme projectPath cfg w =
     (let readmePath = projectPath @ [js ''README.md'']
      in if existsSync readmePath (files w)
         then (case readFileSync readmePath (files w) of
                 Inl e \<Rightarrow> Throw e w
               | Inr readme \<Rightarrow>
                   (let readme1 = replace_all (js ''{{PROJECT_NAME}}'') (config_name cfg) readme;
                        readme2 = replace_all (js ''{{PROJECT_DESCRIPTION}}'')
                                    (config_description cfg) readme1
                    in (case writeFileSync readmePath readme2 (files w) of
                          Inl e \<Rightarrow> Throw e w
                        | Inr t \<Rightarrow> Ok (w\<lparr>files := t\<rparr>))))
         else Ok w)"

definition updateConfigFiles :: "env \<Rightarrow> path \<Rightarrow> config \<Rightarrow> world \<Rightarrow> result" where
  "updateConfigFiles env projectPath cfg w =
     (case update_package_json env projectPath cfg w of
        Throw e w1 \<Rightarrow> Throw e w1
      | Ok w1 \<Rightarrow>
          (case update_readme projectPath cfg w1 of
             Throw e w2 \<Rightarrow> Throw e w2
           | Ok w2 \<Rightarrow> Ok (emit [LogSuccess (js ''Updated configuration files'')] w2)))"

subsection \<open>Installing dependencies and committing\<close>

definition exec :: "env \<Rightarrow> jstring \<Rightarrow> path \<Rightarrow> world \<Rightarrow> bool \<times> world" where
  "exec env cmd dir w =
     (case execSync env cmd dir (files w) of
        (ok, t) \<Rightarrow> (ok, emit [ExecSync cmd dir] (w\<lparr>files := t\<rparr>)))"

text \<open>Three texts of the script that hold double quotes.\<close>

definition install_hint :: jstring where
  \<open>install_hint = js ''Please run "pnpm install" or "npm install" in your project directory''\<close>

definition git_hint :: jstring where
  \<open>git_hint = js ''Please run "git init" and "git commit" manually''\<close>

definition git_commit_command :: jstring where
  \<open>git_commit_command = js ''git commit -m "Initial commit from C2C starter kit"''\<close>

definition installDependencies :: "env \<Rightarrow> path \<Rightarrow> world \<Rightarrow> world" where
  "installDependencies env projectPath w =
     (case exec env (js ''pnpm install'') projectPath (emit [LogInfo (js ''Installing dependencies...'')] w) of
        (True, w1) \<Rightarrow> emit [LogSuccess (js ''Dependencies installed successfully'')] w1
      | (False, w1) \<Rightarrow>
          (case exec env (js ''npm install'') projectPath
                  (emit [LogWarning (js ''Failed to install dependencies with pnpm, trying npm...'')] w1) of
             (True, w2) \<Rightarrow> emit [LogSuccess (js ''Dependencies installed successfully'')] w2
           | (False, w2) \<Rightarrow>
               emit [LogWarning (js ''Failed to install dependencies automatically''),
                     LogInfo install_hint] w2))"

definition git_failed :: "world \<Rightarrow> world" where
  "git_failed w =
     emit [LogWarning (js ''Failed to create initial git commit''), LogInfo git_hint] w"

definition createInitialCommit :: "env \<Rightarrow> path \<Rightarrow> world \<Rightarrow> world" where
  "createInitialCommit env projectPath w =
     (case exec env (js ''git init'') projectPath w of
        (False, w1) \<Rightarrow> git_failed w1
      | (True, w1) \<Rightarrow>
          (case exec env (js ''git add .'') projectPath w1 of
             (False, w2) \<Rightarrow> git_failed w2
           | (True, w2) \<Rightarrow>
               (case exec env git_commit_command projectPath w2 of
                  (False, w3) \<Rightarrow> git_failed w3
                | (True, w3) \<Rightarrow> emit [LogSuccess (js ''Created initial git commit'')] w3)))"

definition displaySuccessMessage :: "jstring \<Rightarrow> pathname \<Rightarrow> world \<Rightarrow> world" where
  "displaySuccessMessage projectName projectPath w =
     emit [Blank,
           Log (js ''Project created successfully!'') (js ''green''),
           Log (js ''================================'') (js ''green''),
           Blank,
           Log (js ''Project name: '' @ projectName) (js ''cyan''),
           Log (js ''Project path: '' @ pathname_str projectPath) (js ''cyan''),
           Blank,
           Log (js ''Next steps:'') (js ''yellow''),
           Log (js ''1. cd '' @ projectName) (js ''white''),
           Log (js ''2. pnpm dev'') (js ''white''),
           Log (js ''3. Open http://localhost:3000'') (js ''white''),
           Blank,
           Log (js ''Happy coding!'') (js ''magenta'')] w"

subsection \<open>The run\<close>

text \<open>
  The body of the \<^verbatim>\<open>try\<close> block ends in one of three ways: it runs to its end, it calls
  \<^verbatim>\<open>process.exit\<close>, or a statement throws.  \<open>createNewApp\<close> adds the \<^verbatim>\<open>catch\<close> block and
  gives the exit code of the process with the state it leaves.
\<close>

datatype outcome = Completed world | Exited nat world | Uncaught error world

definition banner :: "world \<Rightarrow> world" where
  "banner w =
     emit [Log (js ''C2C Community Starter Kit - Create New App'') (js ''cyan''),
           Log (js ''==============================================='') (js ''cyan''),
           Blank] w"

text \<open>
  \<open>scaffold\<close> is the part of the \<^verbatim>\<open>try\<close> block that follows the prompts and the
  call of \<^verbatim>\<open>process.cwd()\<close>.
\<close>

definition scaffold ::
  "env \<Rightarrow> nat \<Rightarrow> jstring \<Rightarrow> pathname \<Rightarrow> config \<Rightarrow> world \<Rightarrow> outcome option" where
  "scaffold env fuel projectName projectPath cfg w =
     (case createProjectDirectory projectPath w of
        Throw e w1 \<Rightarrow> Some (Uncaught e w1)
      | Ok w1 \<Rightarrow>
          (case copyTemplateFiles env fuel (segments projectPath) (config_type cfg) w1 of
             None \<Rightarrow> None
           | Some (Throw e w2) \<Rightarrow> Some (Uncaught e w2)
           | Some (Ok w2) \<Rightarrow>
               (case updateConfigFiles env (segments projectPath) cfg w2 of
                  Throw e w3 \<Rightarrow> Some (Uncaught e w3)
                | Ok w3 \<Rightarrow>
                    Some (Completed
                      (displaySuccessMessage projectName projectPath
                        (createInitialCommit env (segments projectPath)
                          (installDependencies env (segments projectPath) w3)))))))"

definition createNewApp_try :: "env \<Rightarrow> nat \<Rightarrow> answers \<Rightarrow> world \<Rightarrow> outcome option" where
  "createNewApp_try env fuel ans w =
     (case getProjectName (name_line ans) (banner w) of
        (projectName, w1) \<Rightarrow>
          if projectName = []
          then Some (Exited 1 (emit [LogError (js ''Project name is required'')] w1))
          else (case getProjectDescription (description_line ans) w1 of
            (projectDescription, w2) \<Rightarrow>
              (case getProjectType (type_line ans) w2 of
                 (projectType, w3) \<Rightarrow>
                   (case getDatabaseConfig (database_line ans) w3 of
                      (databaseConfig, w4) \<Rightarrow>
                        (case getAuthConfig (auth_line ans) w4 of
                           (authConfig, w5) \<Rightarrow>
                             (case process_cwd env (files w5) of
                                Inl e \<Rightarrow> Some (Uncaught e w5)
                              | Inr dir \<Rightarrow>
                                  scaffold env fuel projectName
                                    (path_join_name dir projectName)
                                    \<lparr>config_name = projectName,
                                     config_description = projectDescription,
                                     config_type = projectType,
                                     config_database = databaseConfig,
                                     config_auth = authConfig\<rparr>
                                    w5))))))"

definition createNewApp :: "env \<Rightarrow> nat \<Rightarrow> answers \<Rightarrow> world \<Rightarrow> (nat \<times> world) option" where
  "createNewApp env fuel ans w =
     (case createNewApp_try env fuel ans w of
        None \<Rightarrow> None
      | Some (Completed w1) \<Rightarrow> Some (0, w1)
      | Some (Exited code w1) \<Rightarrow> Some (code, w1)
      | Some (Uncaught e w1) \<Rightarrow>
          Some (1, emit [LogError (js ''Failed to create app: '' @ message env e)] w1))"

subsection \<open>Vocabulary of the properties\<close>

text \<open>
  An answer to a numbered menu of \<open>N\<close> options selects nothing when \<^verbatim>\<open>parseInt\<close> finds
  no number at its start, or finds one outside \<open>1..N\<close>.  An answer is a number when it
  is a non-empty string of decimal digits.
\<close>

definition invalid_choice :: "nat \<Rightarrow> jstring \<Rightarrow> bool" where
  "invalid_choice N answer =
     (case parseInt (trim answer) of None \<Rightarrow> True | Some n \<Rightarrow> n < 1 \<or> int N < n)"

definition numeric :: "jstring \<Rightarrow> bool" where
  "numeric s \<longleftrightarrow> s \<noteq> [] \<and> list_all (radix_digit 10) s"

definition world0 :: world where
  "world0 = \<lparr>files = [], events = []\<rparr>"

text \<open>
  What the banner and the five prompts write, whatever the answers are; the project path
  of a run (the text the script joins from the working directory and the name) and the
  directory it names; the configuration a run builds from its answers; and what the
  summary writes for a name and the text of a path.
\<close>

definition prompt_events :: "event list" where
  "prompt_events =
     [Log (js ''C2C Community Starter Kit - Create New App'') (js ''cyan''),
      Log (js ''==============================================='') (js ''cyan''),
      Blank,
      Question (js ''What is the name of your project? ''),
      Question (js ''Describe your project (optional): ''),
      LogInfo (js ''Available project types:''),
      Log (js ''  1. Basic CRUD App'') (js ''yellow''),
      Log (js ''  2. Simple Dashboard'') (js ''yellow''),
      Log (js ''  3. Plugin Starter'') (js ''yellow''),
      Log (js ''  4. Custom (from scratch)'') (js ''yellow''),
      Blank,
      Question (js ''Choose a project type (1-4): ''),
      LogInfo (js ''Database configuration:''),
      Log (js ''  1. Use Supabase (recommended)'') (js ''yellow''),
      Log (js ''  2. Use local PostgreSQL'') (js ''yellow''),
      Log (js ''  3. Skip database setup'') (js ''yellow''),
      Blank,
      Question (js ''Choose database option (1-3): ''),
      LogInfo (js ''Authentication configuration:''),
      Log (js ''  1. Enable authentication (recommended)'') (js ''yellow''),
      Log (js ''  2. Skip authentication setup'') (js ''yellow''),
      Blank,
      Question (js ''Choose auth option (1-2): '')]"

definition project_path :: "env \<Rightarrow> answers \<Rightarrow> pathname" where
  "project_path env ans = path_join_name (cwd env) (trim (name_line ans))"

definition project_dir :: "env \<Rightarrow> answers \<Rightarrow> path" where
  "project_dir env ans = path_join (cwd env) (trim (name_line ans))"

definition summary_events :: "jstring \<Rightarrow> jstring \<Rightarrow> event list" where
  "summary_events projectName pathText =
     [Blank,
      Log (js ''Project created successfully!'') (js ''green''),
      Log (js ''================================'') (js ''green''),
      Blank,
      Log (js ''Project name: '' @ projectName) (js ''cyan''),
      Log (js ''Project path: '' @ pathText) (js ''cyan''),
      Blank,
      Log (js ''Next steps:'') (js ''yellow''),
      Log (js ''1. cd '' @ projectName) (js ''white''),
      Log (js ''2. pnpm dev'') (js ''white''),
      Log (js ''3. Open http://localhost:3000'') (js ''white''),
      Blank,
      Log (js ''Happy coding!'') (js ''magenta'')]"

definition run_config :: "answers \<Rightarrow> config" where
  "run_config ans =
     \<lparr>config_name = trim (name_line ans),
      config_description = trim (description_line ans),
      config_type = fst (getProjectType (type_line ans) world0),
      config_database = fst (getDatabaseConfig (database_line ans) world0),
      config_auth = fst (getAuthConfig (auth_line ans) world0)\<rparr>"

text \<open>The exit code an outcome of the \<^verbatim>\<open>try\<close> block leads to.\<close>

definition exit_status :: "outcome \<Rightarrow> nat" where
  "exit_status out = (case out of Completed w \<Rightarrow> 0 | Exited c w \<Rightarrow> c | Uncaught e w \<Rightarrow> 1)"

text \<open>How often a trace starts \<^verbatim>\<open>npm install\<close>.\<close>

definition npm_runs :: "event list \<Rightarrow> nat" where
  "npm_runs es =
     length (filter (\<lambda>e. case e of ExecSync cmd dir \<Rightarrow> cmd = js ''npm install'' | _ \<Rightarrow> False) es)"

text \<open>Well-formedness of a table, on the map it stands for.\<close>

definition wfm :: "(path \<rightharpoonup> node) \<Rightarrow> bool" where
  "wfm m \<longleftrightarrow> (\<forall>k. k \<noteq> [] \<and> m k \<noteq> None \<longrightarrow> m (butlast k) = Some Dir)"

text \<open>
  A small installation for the examples: the kit lives in \<^verbatim>\<open>/kit\<close> (with no template
  for \<^verbatim>\<open>basic-crud\<close>, as in the repository, whose template directories carry other
  names), the user works in \<^verbatim>\<open>/work\<close>, and every subprocess fails.
\<close>

definition demo_fs :: fs where
  "demo_fs = [([], Dir), ([js ''work''], Dir), ([js ''kit''], Dir), ([js ''kit'', js ''scripts''], Dir)]"

definition demo_env :: env where
  "demo_env =
     \<lparr>cwd = [js ''work''], dirname = [js ''kit'', js ''scripts''],
      execSync = (\<lambda>cmd dir t. (False, t)),
      JSON_parse = (\<lambda>s. None), JSON_stringify = (\<lambda>v. []),
      runtime_message = (\<lambda>e. [])\<rparr>"

definition demo_answers :: answers where
  "demo_answers =
     \<lparr>name_line = js ''app'', description_line = js ''Test'', type_line = js ''1'',
      database_line = js ''1'', auth_line = js ''1''\<rparr>"

definition demo_world :: world where
  "demo_world = \<lparr>files = demo_fs, events = []\<rparr>"

definition demo_fs_app :: fs where
  "demo_fs_app = demo_fs @ [([js ''work'', js ''app''], Dir)]"

definition demo_before_install :: world where
  "demo_before_install =
     \<lparr>files = demo_fs_app,
      events = prompt_events @
        [LogSuccess (js ''Created project directory: /work/app''),
         LogWarning (js ''Template basic-crud not found, using basic template''),
         LogSuccess (js ''Updated configuration files'')]\<rparr>"

definition demo_final :: world where
  "demo_final =
     \<lparr>files = demo_fs_app,
      events = prompt_events @
        [LogSuccess (js ''Created project directory: /work/app''),
         LogWarning (js ''Template basic-crud not found, using basic template''),
         LogSuccess (js ''Updated configuration files''),
         LogInfo (js ''Installing dependencies...''),
         ExecSync (js ''pnpm install'') [js ''work'', js ''app''],
         LogWarning (js ''Failed to install dependencies with pnpm, trying npm...''),
         ExecSync (js ''npm install'') [js ''work'', js ''app''],
         LogWarning (js ''Failed to install dependencies automatically''),
         LogInfo install_hint,
         ExecSync (js ''git init'') [js ''work'', js ''app''],
         LogWarning (js ''Failed to create initial git commit''),
         LogInfo git_hint] @
        summary_events (js ''app'') (js ''/work/app'')\<rparr>"

text \<open>
  The same installation after a first run: the destination is there, with a file in it.
  A name typed with a slash at its end, and a name of white space only (a space, a
  no-break space and a tab).  And an installation where the working directory of the
  process has been removed.
\<close>

definition demo_fs_taken :: fs where
  "demo_fs_taken =
     demo_fs_app @ [([js ''work'', js ''app'', js ''notes.txt''], File (js ''keep me''))]"

definition slash_answers :: answers where
  "slash_answers = demo_answers\<lparr>name_line := js ''app/''\<rparr>"

definition blank_answers :: answers where
  "blank_answers = demo_answers\<lparr>name_line := [0x20, 0xA0, 0x09]\<rparr>"

definition gone_env :: env where
  "gone_env = demo_env\<lparr>cwd := [js ''gone'']\<rparr>"

text \<open>
  A README is free of tokens when neither placeholder occurs in it; it is settled for a
  configuration when replacing the tokens in it gives the same text.  A manifest is
  settled when the update step writes the text it read: the text parses, and the parsed
  value with both fields set is serialised to the same text.  The codec reads a manifest
  back when, for the value the update step computes from the text, parsing what
  \<open>JSON_stringify\<close> wrote gives that value again.
\<close>

definition readme_settled :: "config \<Rightarrow> jstring \<Rightarrow> bool" where
  "readme_settled cfg c \<longleftrightarrow>
     replace_all (js ''{{PROJECT_DESCRIPTION}}'') (config_description cfg)
       (replace_all (js ''{{PROJECT_NAME}}'') (config_name cfg) c) = c"

definition manifest_settled :: "env \<Rightarrow> config \<Rightarrow> jstring \<Rightarrow> bool" where
  "manifest_settled env cfg raw =
     (case JSON_parse env raw of
        None \<Rightarrow> False
      | Some v \<Rightarrow>
          (case set_property v (js ''name'') (config_name cfg) of
             Inl e \<Rightarrow> False
           | Inr v1 \<Rightarrow>
               (case set_property v1 (js ''description'') (config_description cfg) of
                  Inl e \<Rightarrow> False
                | Inr v2 \<Rightarrow> JSON_stringify env v2 = raw)))"

definition token_free :: "jstring \<Rightarrow> bool" where
  "token_free s \<longleftrightarrow>
     \<not> sublist (js ''{{PROJECT_NAME}}'') s \<and> \<not> sublist (js ''{{PROJECT_DESCRIPTION}}'') s"

definition manifest_reads_back :: "env \<Rightarrow> config \<Rightarrow> jstring \<Rightarrow> bool" where
  "manifest_reads_back env cfg raw =
     (case JSON_parse env raw of
        None \<Rightarrow> True
      | Some v \<Rightarrow>
          (case set_property v (js ''name'') (config_name cfg) of
             Inl e \<Rightarrow> True
           | Inr v1 \<Rightarrow>
               (case set_property v1 (js ''description'') (config_description cfg) of
                  Inl e \<Rightarrow> True
                | Inr v2 \<Rightarrow> JSON_parse env (JSON_stringify env v2) = Some v2)))"

text \<open>
  The end-to-end scenario of the specification: a project \<^verbatim>\<open>helper-app\<close> whose manifest
  has the name \<^verbatim>\<open>template\<close> and whose README names the project twice.  The codec of
  this environment is a table of \<^verbatim>\<open>JSON.parse\<close> and \<^verbatim>\<open>JSON.stringify\<close> at the two
  manifests of the scenario.
\<close>

definition manifest_in :: jstring where
  \<open>manifest_in = js ''{"name":"template","description":"","version":"1.0.0"}''\<close>

definition manifest_value_in :: json where
  "manifest_value_in =
     JObj [(js ''name'', JStr (js ''template'')), (js ''description'', JStr []),
           (js ''version'', JStr (js ''1.0.0''))]"

definition manifest_value_out :: json where
  "manifest_value_out =
     JObj [(js ''name'', JStr (js ''helper-app'')), (js ''description'', JStr (js ''Test'')),
           (js ''version'', JStr (js ''1.0.0''))]"

definition manifest_out :: jstring where
  \<open>manifest_out =
     js ''{'' @ [0x0A] @
     js ''  "name": "helper-app",'' @ [0x0A] @
     js ''  "description": "Test",'' @ [0x0A] @
     js ''  "version": "1.0.0"'' @ [0x0A] @
     js ''}''\<close>

definition table_env :: env where
  "table_env =
     \<lparr>cwd = [js ''work''], dirname = [js ''kit'', js ''scripts''],
      execSync = (\<lambda>cmd dir t. (False, t)),
      JSON_parse = (\<lambda>s. if s = manifest_in then Some manifest_value_in
                          else if s = manifest_out then Some manifest_value_out
                          else None),
      JSON_stringify = (\<lambda>v. if v = manifest_value_out then manifest_out else js ''null''),
      runtime_message = (\<lambda>e. [])\<rparr>"









definition helper_config :: config where
  "helper_config =
     \<lparr>config_name = js ''helper-app'', config_description = js ''Test'',
      config_type = js ''basic-crud'', config_database = js ''supabase'', config_auth = True\<rparr>"

definition helper_fs :: "jstring \<Rightarrow> jstring \<Rightarrow> fs" where
  "helper_fs manifest readme =
     [([], Dir), ([js ''work''], Dir), ([js ''work'', js ''helper-app''], Dir),
      ([js ''work'', js ''helper-app'', js ''package.json''], File manifest),
      ([js ''work'', js ''helper-app'', js ''README.md''], File readme)]"

definition helper_before :: world where
  "helper_before =
     \<lparr>files = helper_fs manifest_in (js ''# {{PROJECT_NAME}}: welcome to {{PROJECT_NAME}}''),
      events = []\<rparr>"

definition helper_after :: world where
  "helper_after =
     \<lparr>files = helper_fs manifest_out (js ''# helper-app: welcome to helper-app''),
      events = [LogSuccess (js ''Updated configuration files'')]\<rparr>"

text \<open>
  A project with a README only, a description that holds dollar signs, and a description
  that quotes a placeholder.
\<close>

definition readme_fs :: "jstring \<Rightarrow> fs" where
  "readme_fs readme = [([], Dir), ([js ''app''], Dir), ([js ''app'', js ''README.md''], File readme)]"

definition dollar_config :: config where
  "dollar_config =
     \<lparr>config_name = js ''app'', config_description = js ''Costs $$5 a month'',
      config_type = js ''custom'', config_database = js ''supabase'', config_auth = False\<rparr>"

definition token_config :: config where
  "token_config =
     \<lparr>config_name = js ''app'', config_description = js ''Built from {{PROJECT_NAME}} tokens'',
      config_type = js ''custom'', config_database = js ''supabase'', config_auth = False\<rparr>"

text \<open>
  The copy, on maps.  \<open>grafted m S D\<close> is \<open>m\<close> with the tree below \<open>S\<close> repeated
  below \<open>D\<close>; \<open>grafted_names\<close> is the same for the children of \<open>S\<close> with a name in
  \<open>X\<close> only, which is the state of the copy loop after these children.  \<open>copy_ready\<close>
  collects what a copy from \<open>S\<close> to \<open>D\<close> with fuel \<open>n\<close> relies on: a well-formed
  table in which \<open>S\<close> is a directory no deeper than \<open>n\<close>, \<open>D\<close> is an empty directory,
  and neither lies inside the other.  \<open>fs_depth\<close> is the length of the longest path of
  a table.
\<close>

definition grafted :: "(path \<rightharpoonup> node) \<Rightarrow> path \<Rightarrow> path \<Rightarrow> (path \<rightharpoonup> node)" where
  "grafted m S D = (\<lambda>q. if strict_prefix D q then m (S @ drop (length D) q) else m q)"

definition grafted_names ::
  "(path \<rightharpoonup> node) \<Rightarrow> path \<Rightarrow> path \<Rightarrow> jstring set \<Rightarrow> (path \<rightharpoonup> node)" where
  "grafted_names m S D X =
     (\<lambda>q. if \<exists>x\<in>X. prefix (D @ [x]) q then m (S @ drop (length D) q) else m q)"

definition copy_ready :: "nat \<Rightarrow> path \<Rightarrow> path \<Rightarrow> (path \<rightharpoonup> node) \<Rightarrow> bool" where
  "copy_ready n S D m \<longleftrightarrow>
     wfm m \<and> m S = Some Dir \<and> m D = Some Dir \<and> (\<forall>q. q \<noteq> [] \<longrightarrow> m (D @ q) = None) \<and>
     \<not> prefix S D \<and> \<not> prefix D S \<and> (\<forall>q. m (S @ q) \<noteq> None \<longrightarrow> length q < n)"

definition fs_depth :: "fs \<Rightarrow> nat" where
  "fs_depth t = fold max (map (\<lambda>e. length (fst e)) t) 0"

text \<open>
  An installation whose kit has a template for \<^verbatim>\<open>basic-crud\<close>, with a file at its root
  and one in a subdirectory; the state after the destination \<^verbatim>\<open>/work/app\<close> has been
  created, and the state after the copy.
\<close>

definition kit_fs :: fs where
  "kit_fs =
     [([], Dir), ([js ''work''], Dir), ([js ''kit''], Dir), ([js ''kit'', js ''scripts''], Dir),
      ([js ''kit'', js ''templates''], Dir),
      ([js ''kit'', js ''templates'', js ''basic-crud''], Dir),
      ([js ''kit'', js ''templates'', js ''basic-crud'', js ''README.md''], File (js ''# {{PROJECT_NAME}}'')),
      ([js ''kit'', js ''templates'', js ''basic-crud'', js ''components''], Dir),
      ([js ''kit'', js ''templates'', js ''basic-crud'', js ''components'', js ''ItemList.tsx''],
         File (js ''export default ItemList''))]"

definition kit_created :: world where
  "kit_created =
     \<lparr>files = kit_fs @ [([js ''work'', js ''app''], Dir)],
      events = [LogSuccess (js ''Created project directory: /work/app'')]\<rparr>"

definition kit_copied :: world where
  "kit_copied =
     \<lparr>files = kit_fs @
        [([js ''work'', js ''app''], Dir),
         ([js ''work'', js ''app'', js ''README.md''], File (js ''# {{PROJECT_NAME}}'')),
         ([js ''work'', js ''app'', js ''components''], Dir),
         ([js ''work'', js ''app'', js ''components'', js ''ItemList.tsx''], File (js ''export default ItemList''))],
      events = [LogSuccess (js ''Created project directory: /work/app''),
                LogSuccess (js ''Copied template files for basic-crud'')]\<rparr>"

definition demo_after_create :: world where
  "demo_after_create =
     \<lparr>files = demo_fs_app,
      events = prompt_events @ [LogSuccess (js ''Created project directory: /work/app'')]\<rparr>"

definition demo_after_copy :: world where
  "demo_after_copy =
     \<lparr>files = demo_fs_app,
      events = prompt_events @
        [LogSuccess (js ''Created project directory: /work/app''),
         LogWarning (js ''Template basic-crud not found, using basic template'')]\<rparr>"

section \<open>Properties\<close>

subsection \<open>Strings\<close>

lemma unat_of_char: "unat (of_char c :: 16 word) = of_char c"
proof -
  have eq: "(of_char c :: 16 word) = of_nat (of_char c)"
    by (simp add: of_nat_of_char)
  have "(of_char c :: nat) < 256"
    by (cases c) simp
  then have "(of_char c :: nat) < 65536"
    by linarith
  then have "(of_char c :: nat) mod 65536 = of_char c"
    by (rule mod_less)
  then have "unat (of_nat (of_char c) :: 16 word) = of_char c"
    by (simp add: unat_of_nat)
  with eq show ?thesis by simp
qed

lemma of_char_code_unit_eq [simp]: "(of_char c :: 16 word) = of_char d \<longleftrightarrow> c = d"
  by (metis unat_of_char of_char_eq_iff)

lemma js_eq_iff [simp]: "js a = js b \<longleftrightarrow> a = b"
  unfolding js_def by (rule inj_map_eq_map) (simp add: inj_def)

lemma js_Nil [simp]: "js [] = []"
  by (simp add: js_def)

lemma js_eq_Nil [simp]: "js s = [] \<longleftrightarrow> s = []" "[] = js s \<longleftrightarrow> s = []"
  by (auto simp: js_def)

lemma js_append: "js (a @ b) = js a @ js b"
  by (simp add: js_def)

lemma js_append_left: "js a @ js b @ x = js (a @ b) @ x"
  by (simp add: js_def)

subsection \<open>The numbered prompts\<close>

lemmas prompt_defs =
  getProjectType_def getDatabaseConfig_def getAuthConfig_def Let_def or_default_def
  array_get_def minus1_def project_types_def database_options_def

lemmas parse_defs =
  parseInt_def trim_def is_space_def radix_digit_def digit_val_def digit_of_def js_def

text \<open>
  C6, as the script has it.  An answer that selects nothing never raises and resolves to
  the default of its prompt: \<^verbatim>\<open>custom\<close> for the project type, \<^verbatim>\<open>supabase\<close> for the
  database, and no authentication.  An answer whose leading integer is one of the
  options selects that option by its 1-based index, whatever follows the integer.
\<close>

theorem numbered_prompt_default:
  "(invalid_choice 4 a \<longrightarrow> fst (getProjectType a w) = js ''custom'') \<and>
   (invalid_choice 3 a \<longrightarrow> fst (getDatabaseConfig a w) = js ''supabase'') \<and>
   (invalid_choice 2 a \<longrightarrow> \<not> fst (getAuthConfig a w)) \<and>
   (\<forall>n. parseInt (trim a) = Some n \<and> 1 \<le> n \<and> n \<le> 4 \<longrightarrow>
        fst (getProjectType a w) = project_types ! nat (n - 1)) \<and>
   (\<forall>n. parseInt (trim a) = Some n \<and> 1 \<le> n \<and> n \<le> 3 \<longrightarrow>
        fst (getDatabaseConfig a w) = database_options ! nat (n - 1)) \<and>
   (fst (getAuthConfig a w) \<longleftrightarrow> parseInt (trim a) = Some 1)"
proof (intro conjI impI allI)
  show "fst (getProjectType a w) = js ''custom''" if "invalid_choice 4 a"
    using that by (auto simp: invalid_choice_def prompt_defs split: option.splits)
  show "fst (getDatabaseConfig a w) = js ''supabase''" if "invalid_choice 3 a"
    using that by (auto simp: invalid_choice_def prompt_defs split: option.splits)
  show "\<not> fst (getAuthConfig a w)" if "invalid_choice 2 a"
    using that by (auto simp: invalid_choice_def prompt_defs split: option.splits)
  show "fst (getProjectType a w) = project_types ! nat (n - 1)"
    if "parseInt (trim a) = Some n \<and> 1 \<le> n \<and> n \<le> 4" for n
  proof -
    from that have "n = 1 \<or> n = 2 \<or> n = 3 \<or> n = 4" by arith
    with that show ?thesis by (auto simp: prompt_defs)
  qed
  show "fst (getDatabaseConfig a w) = database_options ! nat (n - 1)"
    if "parseInt (trim a) = Some n \<and> 1 \<le> n \<and> n \<le> 3" for n
  proof -
    from that have "n = 1 \<or> n = 2 \<or> n = 3" by arith
    with that show ?thesis by (auto simp: prompt_defs)
  qed
  show "fst (getAuthConfig a w) \<longleftrightarrow> parseInt (trim a) = Some 1"
    by (simp add: prompt_defs)
qed

text \<open>The theorem at the answers \<^verbatim>\<open>abc\<close> (no number) and \<^verbatim>\<open>7\<close> (out of range).\<close>

theorem numbered_prompt_default_witness:
  "invalid_choice 4 (js ''abc'') \<and> fst (getProjectType (js ''abc'') world0) = js ''custom'' \<and>
   invalid_choice 3 (js ''7'') \<and> fst (getDatabaseConfig (js ''7'') world0) = js ''supabase'' \<and>
   invalid_choice 2 (js ''abc'') \<and> \<not> fst (getAuthConfig (js ''abc'') world0)"
proof -
  have a: "invalid_choice 4 (js ''abc'')" and b: "invalid_choice 3 (js ''7'')"
    and c: "invalid_choice 2 (js ''abc'')"
    by (simp_all add: invalid_choice_def parse_defs)
  from a b c numbered_prompt_default [of "(js ''abc'')" world0]
    numbered_prompt_default [of "(js ''7'')" world0]
  show ?thesis by blast
qed

text \<open>
  White space is more than the ASCII part: a no-break space before the digit is skipped
  like a space, so the answer selects the second project type.
\<close>

lemma no_break_space_skipped:
  "trim [0xA0, 0x32, 0x20] = js ''2'' \<and>
   fst (getProjectType [0xA0, 0x32, 0x20] world0) = js ''dashboard''"
  by (simp add: prompt_defs parse_defs)

text \<open>
  C6 as the specification words it fails: the answer \<^verbatim>\<open>2abc\<close> is not a number, and it
  selects the second project type instead of the default.
\<close>

theorem non_numeric_answer_selects_option:
  "\<not> numeric (trim (js ''2abc'')) \<and>
   fst (getProjectType (js ''2abc'') world0) = js ''dashboard'' \<and>
   fst (getProjectType (js ''2abc'') world0) \<noteq> js ''custom''"
  by (simp add: numeric_def prompt_defs parse_defs)

subsection \<open>The state of a run\<close>

lemma emit_emit [simp]: "emit es2 (emit es1 w) = emit (es1 @ es2) w"
  by (simp add: emit_def)

lemma files_emit [simp]: "files (emit es w) = files w"
  by (simp add: emit_def)

lemma events_emit [simp]: "events (emit es w) = events w @ es"
  by (simp add: emit_def)

lemma emit_files_update [simp]: "emit es (w\<lparr>files := t\<rparr>) = (emit es w)\<lparr>files := t\<rparr>"
  by (simp add: emit_def)

lemma world_updates [simp]:
  "w\<lparr>files := t, events := es\<rparr> = \<lparr>files = t, events = es\<rparr>"
  by (cases w) simp

lemma exec_eq:
  "exec env cmd dir w =
     (fst (execSync env cmd dir (files w)),
      \<lparr>files = snd (execSync env cmd dir (files w)), events = events w @ [ExecSync cmd dir]\<rparr>)"
  by (simp add: exec_def emit_def split: prod.splits)

lemma npm_runs_Nil [simp]: "npm_runs [] = 0"
  by (simp add: npm_runs_def)

lemma npm_runs_Cons [simp]:
  "npm_runs (e # es) =
     (case e of ExecSync cmd dir \<Rightarrow> if cmd = js ''npm install'' then 1 else 0 | _ \<Rightarrow> 0)
     + npm_runs es"
  by (simp add: npm_runs_def split: event.splits)

lemma npm_runs_append [simp]: "npm_runs (xs @ ys) = npm_runs xs + npm_runs ys"
  by (simp add: npm_runs_def)

lemma npm_runs_prompt_events [simp]: "npm_runs prompt_events = 0"
  by (simp add: prompt_events_def)

subsection \<open>Well-formed tables and \<open>mkdirSync\<close>\<close>

lemma wf_fs_wfm: "wf_fs t \<longleftrightarrow> wfm (map_of t)"
proof -
  have "k \<in> fst ` set t \<longleftrightarrow> map_of t k \<noteq> None" for k
    by (simp add: map_of_eq_None_iff)
  then show ?thesis
    unfolding wf_fs_def wfm_def list_all_iff set_map by blast
qed

lemma wfm_below_None:
  assumes "wfm m" "m p = None"
  shows "m (p @ q) = None"
proof (induction q rule: rev_induct)
  case Nil
  with assms show ?case by simp
next
  case (snoc x xs)
  show ?case
  proof (rule ccontr)
    assume "m (p @ xs @ [x]) \<noteq> None"
    with assms(1) have "m (butlast (p @ xs @ [x])) = Some Dir"
      unfolding wfm_def by blast
    with snoc show False by (simp add: butlast_append)
  qed
qed

lemma wfm_prefix_Dir:
  assumes "wfm m" "m (p @ q) \<noteq> None" "q \<noteq> []"
  shows "m p = Some Dir"
  using assms(2,3)
proof (induction q rule: rev_induct)
  case Nil
  then show ?case by simp
next
  case (snoc x xs)
  from assms(1) snoc.prems(1) have *: "m (p @ xs) = Some Dir"
    unfolding wfm_def by (metis append_assoc butlast_snoc snoc_eq_iff_butlast)
  show ?case
  proof (cases "xs = []")
    case True
    with * show ?thesis by simp
  next
    case False
    with * snoc.IH show ?thesis by simp
  qed
qed

lemma mkdir_each_map_of:
  "mkdir_each p qs t = Inr t' \<Longrightarrow>
   map_of t' k = (if k \<in> set qs \<and> map_of t k = None then Some Dir else map_of t k)"
proof (induction qs arbitrary: t)
  case Nil
  then show ?case by simp
next
  case (Cons q qs)
  show ?case
  proof (cases "map_of t q")
    case None
    with Cons.prems have "mkdir_each p qs (AList.update q Dir t) = Inr t'" by simp
    from Cons.IH [OF this] None show ?thesis
      by (auto simp: update_conv')
  next
    case (Some n)
    with Cons.prems obtain "n = Dir" and "mkdir_each p qs t = Inr t'"
      by (cases n) auto
    with Cons.IH [of t] Some show ?thesis by auto
  qed
qed

lemma mkdirSync_map_of:
  "mkdirSync p t = Inr t' \<Longrightarrow>
   map_of t' k = (if prefix k p \<and> map_of t k = None then Some Dir else map_of t k)"
  unfolding mkdirSync_def by (drule mkdir_each_map_of [where k = k]) (simp add: in_set_prefixes)

lemma fresh_directory_empty:
  assumes "wf_fs t" "\<not> existsSync p t" "mkdirSync p t = Inr t'"
  shows "map_of t' p = Some Dir" and "q \<noteq> [] \<Longrightarrow> map_of t' (p @ q) = None"
proof -
  from assms(2) have none: "map_of t p = None" by (simp add: existsSync_def)
  with mkdirSync_map_of [OF assms(3), of p] show "map_of t' p = Some Dir" by simp
  assume "q \<noteq> []"
  then have "\<not> prefix (p @ q) p" by (auto simp: prefix_def)
  moreover from assms(1) none have "map_of t (p @ q) = None"
    by (simp add: wf_fs_wfm wfm_below_None)
  ultimately show "map_of t' (p @ q) = None"
    using mkdirSync_map_of [OF assms(3), of "p @ q"] by simp
qed

subsection \<open>The steps of a run\<close>

lemma createNewApp_try_empty:
  "trim (name_line ans) = [] \<Longrightarrow>
   createNewApp_try env fuel ans w =
     Some (Exited 1 (emit (take 4 prompt_events @ [LogError (js ''Project name is required'')]) w))"
  by (simp add: createNewApp_try_def getProjectName_def banner_def prompt_events_def)

lemma createNewApp_try_prompts:
  "trim (name_line ans) \<noteq> [] \<Longrightarrow>
   createNewApp_try env fuel ans w =
     (case process_cwd env (files w) of
        Inl e \<Rightarrow> Some (Uncaught e (emit prompt_events w))
      | Inr dir \<Rightarrow>
          scaffold env fuel (trim (name_line ans)) (path_join_name dir (trim (name_line ans)))
            (run_config ans) (emit prompt_events w))"
  by (simp add: createNewApp_try_def getProjectName_def getProjectDescription_def
      getProjectType_def getDatabaseConfig_def getAuthConfig_def banner_def Let_def
      prompt_events_def run_config_def split: sum.splits)

lemma createNewApp_try_scaffold:
  "trim (name_line ans) \<noteq> [] \<Longrightarrow> process_cwd env (files w) = Inr (cwd env) \<Longrightarrow>
   createNewApp_try env fuel ans w =
     scaffold env fuel (trim (name_line ans)) (project_path env ans) (run_config ans)
       (emit prompt_events w)"
  by (simp add: createNewApp_try_prompts project_path_def)

lemma createNewApp_try_no_cwd:
  "trim (name_line ans) \<noteq> [] \<Longrightarrow> process_cwd env (files w) = Inl e \<Longrightarrow>
   createNewApp_try env fuel ans w = Some (Uncaught e (emit prompt_events w))"
  by (simp add: createNewApp_try_prompts)

lemma process_cwd_cases:
  "process_cwd env t = Inr (cwd env) \<or>
   process_cwd env t = Inl (CallError (js ''ENOENT'') (js ''uv_cwd''))"
  by (simp add: process_cwd_def)

lemma process_cwd_execSync [simp]: "process_cwd (env\<lparr>execSync := f\<rparr>) = process_cwd env"
  by (intro ext) (simp add: process_cwd_def)

lemma segments_project_path [simp]: "segments (project_path env ans) = project_dir env ans"
  by (simp add: project_path_def project_dir_def path_join_name_def)

lemma createNewApp_exit_status:
  "map_option fst (createNewApp env fuel ans w) =
   map_option exit_status (createNewApp_try env fuel ans w)"
  by (simp add: createNewApp_def exit_status_def split: option.splits outcome.splits)

lemma createProjectDirectory_exists:
  "existsSync_name p (files w) \<Longrightarrow>
   createProjectDirectory p w =
     Throw (Error (js ''Directory '' @ pathname_str p @ js '' already exists'')) w"
  by (simp add: createProjectDirectory_def)

lemma createProjectDirectory_Ok:
  assumes "\<not> existsSync_name p (files w)" "mkdirSync_name p (files w) = Inr t"
  shows "createProjectDirectory p w =
           Ok (emit [LogSuccess (js ''Created project directory: '' @ pathname_str p)]
                 (w\<lparr>files := t\<rparr>))"
  using assms by (simp add: createProjectDirectory_def)

lemma createProjectDirectory_cases:
  assumes "createProjectDirectory p w = Ok w1"
  obtains t where "map_of (files w) (segments p) = None"
    "mkdirSync (segments p) (files w) = Inr t"
    "w1 = emit [LogSuccess (js ''Created project directory: '' @ pathname_str p)]
            (w\<lparr>files := t\<rparr>)"
  using assms
  by (auto simp: createProjectDirectory_def existsSync_name_def mkdirSync_name_def
      split: if_splits sum.splits option.splits node.splits)



lemma events_createProjectDirectory:
  "createProjectDirectory p w = Ok w1 \<Longrightarrow>
   events w1 = events w @ [LogSuccess (js ''Created project directory: '' @ pathname_str p)]"
  by (auto simp: createProjectDirectory_def split: if_splits sum.splits)

lemma events_copyTemplateFiles:
  "copyTemplateFiles env fuel p ty w = Some (Ok w1) \<Longrightarrow>
   events w1 = events w @ [LogWarning (js ''Template '' @ ty @ js '' not found, using basic template'')] \<or>
   events w1 = events w @ [LogSuccess (js ''Copied template files for '' @ ty)]"
  by (auto simp: copyTemplateFiles_def Let_def split: if_splits option.splits copy_result.splits)

lemma events_update_package_json:
  "update_package_json env p cfg w = Ok w1 \<Longrightarrow> events w1 = events w"
  by (auto simp: update_package_json_def Let_def split: if_splits option.splits sum.splits)

lemma events_update_readme:
  "update_readme p cfg w = Ok w1 \<Longrightarrow> events w1 = events w"
  by (auto simp: update_readme_def Let_def split: if_splits option.splits sum.splits)

lemma events_updateConfigFiles:
  "updateConfigFiles env p cfg w = Ok w1 \<Longrightarrow>
   events w1 = events w @ [LogSuccess (js ''Updated configuration files'')]"
  by (auto simp: updateConfigFiles_def split: result.splits
      dest!: events_update_package_json events_update_readme)

lemma copyTemplateFiles_execSync [simp]:
  "copyTemplateFiles (env\<lparr>execSync := f\<rparr>) = copyTemplateFiles env"
  by (intro ext) (simp add: copyTemplateFiles_def template_path_def)

lemma update_package_json_execSync [simp]:
  "update_package_json (env\<lparr>execSync := f\<rparr>) = update_package_json env"
  by (intro ext) (simp add: update_package_json_def Let_def split: sum.splits option.splits)

lemma updateConfigFiles_execSync [simp]:
  "updateConfigFiles (env\<lparr>execSync := f\<rparr>) = updateConfigFiles env"
  by (intro ext) (simp add: updateConfigFiles_def)

lemma scaffold_execSync:
  "map_option exit_status (scaffold (env\<lparr>execSync := f\<rparr>) fuel nm p cfg w) =
   map_option exit_status (scaffold env fuel nm p cfg w)"
  by (simp add: scaffold_def exit_status_def split: result.splits option.splits)

lemma npm_runs_createInitialCommit [simp]:
  "npm_runs (events (createInitialCommit env p w)) = npm_runs (events w)"
  by (simp add: createInitialCommit_def git_failed_def exec_eq git_commit_command_def
      split: prod.splits bool.splits)

lemma npm_runs_displaySuccessMessage [simp]:
  "npm_runs (events (displaySuccessMessage nm p w)) = npm_runs (events w)"
  by (simp add: displaySuccessMessage_def)

lemma installDependencies_fallback:
  assumes "\<not> fst (execSync env (js ''pnpm install'') p (files w))"
  shows "installDependencies env p w =
     \<lparr>files = snd (execSync env (js ''npm install'') p (snd (execSync env (js ''pnpm install'') p (files w)))),
      events = events w @
        [LogInfo (js ''Installing dependencies...''),
         ExecSync (js ''pnpm install'') p,
         LogWarning (js ''Failed to install dependencies with pnpm, trying npm...''),
         ExecSync (js ''npm install'') p] @
        (if fst (execSync env (js ''npm install'') p (snd (execSync env (js ''pnpm install'') p (files w))))
         then [LogSuccess (js ''Dependencies installed successfully'')]
         else [LogWarning (js ''Failed to install dependencies automatically''),
               LogInfo install_hint])\<rparr>"
  using assms
  by (simp add: installDependencies_def exec_eq emit_def split: prod.splits bool.splits)

lemma last_events_displaySuccessMessage:
  "last (events (displaySuccessMessage nm p w)) = Log (js ''Happy coding!'') (js ''magenta'')"
  by (simp add: displaySuccessMessage_def)

lemma git_init_attempted:
  "ExecSync (js ''git init'') p \<in> set (events (createInitialCommit env p w))"
  by (simp add: createInitialCommit_def git_failed_def exec_eq split: prod.splits bool.splits)

subsection \<open>The example installation\<close>

lemmas demo_defs = demo_fs_def demo_env_def demo_answers_def demo_world_def

lemmas path_defs =
  project_path_def project_dir_def template_path_def path_join_def join_step_def
  path_join_name_def ends_in_slash_def pathname_str_def path_str_def

lemma demo_trim: "trim (name_line demo_answers) = js ''app''"
  by (simp add: demo_defs parse_defs)

lemma demo_dir: "project_dir demo_env demo_answers = [js ''work'', js ''app'']"
  by (simp add: demo_defs path_defs parse_defs)

lemma demo_path:
  "project_path demo_env demo_answers =
     \<lparr>segments = [js ''work'', js ''app''], trailing_slash = False\<rparr>"
  by (simp add: demo_defs path_defs parse_defs)

lemma demo_path_str:
  "pathname_str \<lparr>segments = [js ''work'', js ''app''], trailing_slash = False\<rparr> = js ''/work/app''"
  "pathname_str \<lparr>segments = [js ''work'', js ''app''], trailing_slash = True\<rparr> = js ''/work/app/''"
  by (simp_all add: pathname_str_def path_str_def js_def)

lemma demo_no_nul: "\<not> has_nul \<lparr>segments = [js ''work'', js ''app''], trailing_slash = b\<rparr>"
  by (simp add: has_nul_def js_def)

lemma demo_cwd: "process_cwd demo_env demo_fs = Inr (cwd demo_env)"
  by (simp add: process_cwd_def demo_defs)

lemma demo_type: "config_type (run_config demo_answers) = js ''basic-crud''"
  by (simp add: demo_defs run_config_def prompt_defs parse_defs)

lemma demo_template:
  "template_path demo_env (js ''basic-crud'') = [js ''kit'', js ''templates'', js ''basic-crud'']"
  by (simp add: demo_defs path_defs js_def)

lemma demo_mkdir:
  "mkdirSync [js ''work'', js ''app''] demo_fs = Inr (demo_fs @ [([js ''work'', js ''app''], Dir)])"
  by (simp add: mkdirSync_def demo_fs_def)


lemma demo_fresh:
  "map_of demo_fs [js ''work'', js ''app''] = None"
  "\<not> existsSync [js ''kit'', js ''templates'', js ''basic-crud'']
       (demo_fs @ [([js ''work'', js ''app''], Dir)])"
  by (simp_all add: existsSync_def demo_fs_def)


lemma files_displaySuccessMessage [simp]: "files (displaySuccessMessage nm p w) = files w"
  by (simp add: displaySuccessMessage_def)



lemma demo_created:
  "createProjectDirectory (project_path demo_env demo_answers) (emit prompt_events demo_world)
     = Ok demo_after_create"
  using demo_fresh(1) demo_mkdir
  by (simp add: createProjectDirectory_def existsSync_name_def mkdirSync_name_def demo_no_nul
      demo_path demo_path_str demo_world_def demo_fs_app_def emit_def
      demo_after_create_def js_append [symmetric])

lemma demo_copied:
  "copyTemplateFiles demo_env fuel [js ''work'', js ''app''] (js ''basic-crud'') demo_after_create =
   Some (Ok demo_after_copy)"
  using demo_fresh(2)
  by (simp add: copyTemplateFiles_def demo_template demo_fs_app_def emit_def
      demo_after_create_def demo_after_copy_def js_append [symmetric])

lemma demo_updated:
  "updateConfigFiles demo_env [js ''work'', js ''app''] cfg demo_after_copy = Ok demo_before_install"
  by (simp add: updateConfigFiles_def update_package_json_def update_readme_def existsSync_def
      demo_fs_app_def demo_fs_def demo_before_install_def emit_def demo_after_copy_def)

lemma demo_pnpm_fails:
  "\<not> fst (execSync demo_env (js ''pnpm install'') [js ''work'', js ''app'']
            (files demo_before_install))"
  by (simp add: demo_env_def)

lemma demo_steps:
  "trim (name_line demo_answers) \<noteq> []"
  "process_cwd demo_env (files demo_world) = Inr (cwd demo_env)"
  "createProjectDirectory (project_path demo_env demo_answers) (emit prompt_events demo_world)
     = Ok demo_after_create"
  "copyTemplateFiles demo_env fuel (project_dir demo_env demo_answers)
     (config_type (run_config demo_answers)) demo_after_create = Some (Ok demo_after_copy)"
  "updateConfigFiles demo_env (project_dir demo_env demo_answers) (run_config demo_answers)
     demo_after_copy = Ok demo_before_install"
  "\<not> fst (execSync demo_env (js ''pnpm install'') (project_dir demo_env demo_answers)
            (files demo_before_install))"
proof -
  show "process_cwd demo_env (files demo_world) = Inr (cwd demo_env)"
    using demo_cwd by (simp add: demo_world_def)
qed (simp_all add: demo_trim demo_dir demo_type demo_created demo_copied demo_updated
      demo_pnpm_fails)

lemma demo_installed:
  "installDependencies demo_env [js ''work'', js ''app''] demo_before_install =
     \<lparr>files = demo_fs_app,
      events = events demo_before_install @
        [LogInfo (js ''Installing dependencies...''),
         ExecSync (js ''pnpm install'') [js ''work'', js ''app''],
         LogWarning (js ''Failed to install dependencies with pnpm, trying npm...''),
         ExecSync (js ''npm install'') [js ''work'', js ''app''],
         LogWarning (js ''Failed to install dependencies automatically''),
         LogInfo install_hint]\<rparr>"
  using installDependencies_fallback [OF demo_pnpm_fails]
  by (simp add: demo_env_def demo_before_install_def)

lemma demo_committed:
  "createInitialCommit demo_env p \<lparr>files = t, events = es\<rparr> =
     \<lparr>files = t,
      events = es @ [ExecSync (js ''git init'') p,
                     LogWarning (js ''Failed to create initial git commit''),
                     LogInfo git_hint]\<rparr>"
  by (simp add: createInitialCommit_def git_failed_def exec_eq demo_env_def emit_def)

lemma demo_finished:
  "displaySuccessMessage (js ''app'') (project_path demo_env demo_answers)
     (createInitialCommit demo_env [js ''work'', js ''app'']
       (installDependencies demo_env [js ''work'', js ''app''] demo_before_install))
   = demo_final"
  unfolding demo_installed demo_committed
  by (simp add: displaySuccessMessage_def emit_def summary_events_def demo_before_install_def
      demo_final_def demo_path demo_path_str js_append [symmetric])

lemma demo_run: "createNewApp demo_env fuel demo_answers demo_world = Some (0, demo_final)"
  using demo_steps(1,2)
  by (simp add: createNewApp_def createNewApp_try_scaffold scaffold_def demo_trim demo_dir
      demo_type demo_created demo_copied demo_updated demo_finished)

subsection \<open>The hard failures\<close>

text \<open>
  C9.  When the answer to the first prompt is empty after trimming, the process exits
  with code 1 right after that prompt: the trace holds the banner, the one question and
  the error message, so no other prompt is issued and no subprocess is started, and the
  file system is the one the run began with.
\<close>

theorem empty_name_exits_first:
  assumes "trim (name_line ans) = []"
  shows "createNewApp env fuel ans w =
           Some (1, \<lparr>files = files w,
                     events = events w @
                       [Log (js ''C2C Community Starter Kit - Create New App'') (js ''cyan''),
                        Log (js ''==============================================='') (js ''cyan''),
                        Blank,
                        Question (js ''What is the name of your project? ''),
                        LogError (js ''Project name is required'')]\<rparr>)"
  using assms
  by (simp add: createNewApp_def createNewApp_try_empty prompt_events_def emit_def)

text \<open>
  The theorem at a name of a space, a no-break space and a tab.
\<close>

theorem empty_name_exits_first_witness:
  "trim (name_line blank_answers) = [] \<and>
   createNewApp demo_env 0 blank_answers demo_world =
     Some (1, \<lparr>files = demo_fs,
               events =
                 [Log (js ''C2C Community Starter Kit - Create New App'') (js ''cyan''),
                  Log (js ''==============================================='') (js ''cyan''),
                  Blank,
                  Question (js ''What is the name of your project? ''),
                  LogError (js ''Project name is required'')]\<rparr>)"
proof -
  have blank: "trim (name_line blank_answers) = []"
    by (simp add: blank_answers_def demo_answers_def trim_def is_space_def)
  from empty_name_exits_first [OF blank, of demo_env 0 demo_world] blank
  show ?thesis by (simp add: demo_world_def)
qed

text \<open>
  C1.  When the run reaches the directory-creation step and \<^verbatim>\<open>fs.existsSync\<close> finds the
  project path (as it does when the path names a directory), the run ends with exit
  code 1 and the error message of the script.  The trace holds nothing but the prompts
  and that message (no directory was created, no template copied, no subprocess
  started), and the file system is the one the run began with.
\<close>

theorem destination_exists_fatal:
  assumes "trim (name_line ans) \<noteq> []"
    and "process_cwd env (files w) = Inr (cwd env)"
    and "existsSync_name (project_path env ans) (files w)"
  shows "createNewApp env fuel ans w =
           Some (1, \<lparr>files = files w,
                     events = events w @ prompt_events @
                       [LogError (js ''Failed to create app: Directory ''
                                  @ pathname_str (project_path env ans)
                                  @ js '' already exists'')]\<rparr>)"
  using assms
  by (simp add: createNewApp_def createNewApp_try_scaffold scaffold_def
      createProjectDirectory_exists message_def emit_def js_append_left)

lemma existsSync_name_Dir:
  "map_of t (segments n) = Some Dir \<Longrightarrow> \<not> has_nul n \<Longrightarrow> existsSync_name n t"
  by (simp add: existsSync_name_def)

lemma slash_path:
  "trim (name_line slash_answers) = js ''app/''"
  "project_path demo_env slash_answers =
     \<lparr>segments = [js ''work'', js ''app''], trailing_slash = True\<rparr>"
  by (simp_all add: slash_answers_def demo_defs path_defs parse_defs)

text \<open>
  The theorem at a second run in the example installation, with the name typed as
  \<^verbatim>\<open>app/\<close>: the directory \<^verbatim>\<open>/work/app\<close> of the first run is there, with a file in it.
\<close>

theorem destination_exists_fatal_witness:
  "trim (name_line slash_answers) \<noteq> [] \<and>
   map_of demo_fs_taken (segments (project_path demo_env slash_answers)) = Some Dir \<and>
   existsSync_name (project_path demo_env slash_answers) demo_fs_taken \<and>
   createNewApp demo_env 0 slash_answers \<lparr>files = demo_fs_taken, events = []\<rparr> =
     Some (1, \<lparr>files = demo_fs_taken,
               events = prompt_events @
                 [LogError (js ''Failed to create app: Directory /work/app/ already exists'')]\<rparr>)"
proof -
  have a: "trim (name_line slash_answers) \<noteq> []"
    by (simp add: slash_path)
  have d: "map_of demo_fs_taken (segments (project_path demo_env slash_answers)) = Some Dir"
    by (simp add: slash_path demo_fs_taken_def demo_fs_app_def demo_fs_def)
  then have b: "existsSync_name (project_path demo_env slash_answers)
             (files \<lparr>files = demo_fs_taken, events = []\<rparr>)"
    by (simp add: existsSync_name_Dir slash_path demo_no_nul)
  have c: "process_cwd demo_env (files \<lparr>files = demo_fs_taken, events = []\<rparr>)
             = Inr (cwd demo_env)"
    by (simp add: process_cwd_def demo_env_def demo_fs_taken_def demo_fs_app_def demo_fs_def)
  from destination_exists_fatal [OF a c b, of 0] a b d
  show ?thesis by (simp add: slash_path demo_path_str js_append [symmetric])
qed

subsection \<open>Exit codes\<close>

text \<open>
  C3, as the script has it.  The exit code of a run is 0 exactly when the \<^verbatim>\<open>try\<close> block
  runs to its end.  It is 1 otherwise, and then the project name was empty or a statement
  of the block threw.  An empty name ends the run with code 1; so does a working
  directory that has been removed, by the error of \<^verbatim>\<open>process.cwd()\<close>; and so does a
  project path that exists, by the error the script throws.  What the subprocesses do
  never changes the exit code: a failed install or a failed commit is only reported.
\<close>

theorem exit_code_cases:
  assumes "createNewApp env fuel ans w = Some (code, w')"
  shows "(code = 0 \<longleftrightarrow> (\<exists>w1. createNewApp_try env fuel ans w = Some (Completed w1))) \<and>
         (code \<noteq> 0 \<longrightarrow> code = 1 \<and> (trim (name_line ans) = [] \<or>
              (\<exists>e w1. createNewApp_try env fuel ans w = Some (Uncaught e w1)))) \<and>
         (trim (name_line ans) = [] \<longrightarrow> code = 1) \<and>
         (trim (name_line ans) \<noteq> [] \<and> process_cwd env (files w) \<noteq> Inr (cwd env) \<longrightarrow>
            code = 1 \<and>
            (\<exists>w1. createNewApp_try env fuel ans w =
               Some (Uncaught (CallError (js ''ENOENT'') (js ''uv_cwd'')) w1))) \<and>
         (trim (name_line ans) \<noteq> [] \<and> process_cwd env (files w) = Inr (cwd env) \<and>
          existsSync_name (project_path env ans) (files w) \<longrightarrow>
            code = 1 \<and>
            (\<exists>w1. createNewApp_try env fuel ans w =
               Some (Uncaught (Error (js ''Directory '' @ pathname_str (project_path env ans)
                                      @ js '' already exists'')) w1))) \<and>
         map_option fst (createNewApp (env\<lparr>execSync := f\<rparr>) fuel ans w) = Some code"
proof (intro conjI)
  have cases: "trim (name_line ans) = [] \<or>
      (trim (name_line ans) \<noteq> [] \<and>
       process_cwd env (files w) = Inl (CallError (js ''ENOENT'') (js ''uv_cwd''))) \<or>
      (trim (name_line ans) \<noteq> [] \<and> process_cwd env (files w) = Inr (cwd env))"
    using process_cwd_cases [of env "files w"] by blast
  show "code = 0 \<longleftrightarrow> (\<exists>w1. createNewApp_try env fuel ans w = Some (Completed w1))"
    using assms cases
    by (auto simp: createNewApp_def createNewApp_try_empty createNewApp_try_scaffold
        createNewApp_try_no_cwd scaffold_def
        split: option.splits outcome.splits result.splits)
  show "code \<noteq> 0 \<longrightarrow> code = 1 \<and> (trim (name_line ans) = [] \<or>
              (\<exists>e w1. createNewApp_try env fuel ans w = Some (Uncaught e w1)))"
    using assms cases
    by (auto simp: createNewApp_def createNewApp_try_empty createNewApp_try_scaffold
        createNewApp_try_no_cwd scaffold_def
        split: option.splits outcome.splits result.splits)
  show "trim (name_line ans) = [] \<longrightarrow> code = 1"
    using assms by (auto simp: createNewApp_def createNewApp_try_empty)
  show "trim (name_line ans) \<noteq> [] \<and> process_cwd env (files w) \<noteq> Inr (cwd env) \<longrightarrow>
            code = 1 \<and>
            (\<exists>w1. createNewApp_try env fuel ans w =
               Some (Uncaught (CallError (js ''ENOENT'') (js ''uv_cwd'')) w1))"
    using assms process_cwd_cases [of env "files w"]
    by (auto simp: createNewApp_def createNewApp_try_no_cwd)
  show "trim (name_line ans) \<noteq> [] \<and> process_cwd env (files w) = Inr (cwd env) \<and>
          existsSync_name (project_path env ans) (files w) \<longrightarrow>
            code = 1 \<and>
            (\<exists>w1. createNewApp_try env fuel ans w =
               Some (Uncaught (Error (js ''Directory '' @ pathname_str (project_path env ans)
                                      @ js '' already exists'')) w1))"
    using assms
    by (auto simp: createNewApp_def createNewApp_try_scaffold scaffold_def
        createProjectDirectory_exists)
  show "map_option fst (createNewApp (env\<lparr>execSync := f\<rparr>) fuel ans w) = Some code"
  proof -
    have "map_option fst (createNewApp (env\<lparr>execSync := f\<rparr>) fuel ans w) =
          map_option fst (createNewApp env fuel ans w)"
    proof (cases "trim (name_line ans) = []")
      case True
      then show ?thesis
        by (simp add: createNewApp_def createNewApp_try_empty)
    next
      case False
      then show ?thesis
        using scaffold_execSync [of f env fuel]
        by (simp add: createNewApp_exit_status createNewApp_try_prompts exit_status_def
            split: sum.splits)
    qed
    with assms show ?thesis by simp
  qed
qed

text \<open>
  The theorem at the example run, in which the template is missing and every subprocess
  fails: the block runs to its end, the exit code is 0, and it stays 0 when the
  subprocesses succeed instead.
\<close>

theorem exit_code_cases_witness:
  "createNewApp demo_env 0 demo_answers demo_world = Some (0, demo_final) \<and>
   (\<exists>w1. createNewApp_try demo_env 0 demo_answers demo_world = Some (Completed w1)) \<and>
   map_option fst
     (createNewApp (demo_env\<lparr>execSync := (\<lambda>cmd dir t. (True, t))\<rparr>) 0 demo_answers demo_world)
     = Some 0"
  using exit_code_cases [OF demo_run, of 0 "\<lambda>cmd dir t. (True, t)"] demo_run [of 0]
  by simp

text \<open>
  C3 as the specification words it fails.  With a name of white space the process exits
  with code 1 although nothing threw: the block called \<^verbatim>\<open>process.exit\<close> itself.  In the
  state of this example the project path does not exist either, since the working
  directory is gone.
\<close>

theorem empty_name_is_a_third_exit:
  "createNewApp gone_env 0 blank_answers demo_world =
     Some (1, \<lparr>files = demo_fs,
               events = take 4 prompt_events @ [LogError (js ''Project name is required'')]\<rparr>) \<and>
   createNewApp_try gone_env 0 blank_answers demo_world =
     Some (Exited 1 \<lparr>files = demo_fs,
                     events = take 4 prompt_events
                       @ [LogError (js ''Project name is required'')]\<rparr>) \<and>
   \<not> existsSync_name (project_path gone_env blank_answers) (files demo_world)"
proof -
  have blank: "trim (name_line blank_answers) = []"
    by (simp add: blank_answers_def demo_answers_def trim_def is_space_def)
  have "segments (project_path gone_env blank_answers) = [js ''gone'']"
    by (simp add: blank project_dir_def path_join_def join_step_def gone_env_def demo_env_def)
  then have "\<not> existsSync_name (project_path gone_env blank_answers) (files demo_world)"
    by (simp add: existsSync_name_def demo_world_def demo_fs_def)
  then show ?thesis
    by (simp add: createNewApp_def createNewApp_try_empty [OF blank] emit_def demo_world_def)
qed

subsection \<open>The soft failures\<close>

lemma installDependencies_both_fail:
  assumes "\<not> fst (execSync env (js ''pnpm install'') p (files w))"
    and "\<not> fst (execSync env (js ''npm install'') p
                  (snd (execSync env (js ''pnpm install'') p (files w))))"
  shows "events (installDependencies env p w) =
           events w @
             [LogInfo (js ''Installing dependencies...''),
              ExecSync (js ''pnpm install'') p,
              LogWarning (js ''Failed to install dependencies with pnpm, trying npm...''),
              ExecSync (js ''npm install'') p,
              LogWarning (js ''Failed to install dependencies automatically''),
              LogInfo install_hint]"
  using assms by (simp add: installDependencies_fallback)

text \<open>
  C7.  On a run that reaches the install step, if \<^verbatim>\<open>pnpm install\<close> fails then
  \<^verbatim>\<open>npm install\<close> is started exactly once.  Whether it succeeds or fails too, the run
  goes on to the git step and to the summary, and it exits with code 0.  When it fails
  too, the install step adds two lines to the trace after the two attempts, a warning and
  the advice to install by hand.
\<close>

theorem install_fallback_once:
  assumes "trim (name_line ans) \<noteq> []"
    and "process_cwd env (files w) = Inr (cwd env)"
    and "createProjectDirectory (project_path env ans) (emit prompt_events w) = Ok w1"
    and "copyTemplateFiles env fuel (project_dir env ans) (config_type (run_config ans)) w1
           = Some (Ok w2)"
    and "updateConfigFiles env (project_dir env ans) (run_config ans) w2 = Ok w3"
    and "\<not> fst (execSync env (js ''pnpm install'') (project_dir env ans) (files w3))"
  shows "\<exists>w'. createNewApp env fuel ans w = Some (0, w') \<and>
           w' = displaySuccessMessage (trim (name_line ans)) (project_path env ans)
                  (createInitialCommit env (project_dir env ans)
                    (installDependencies env (project_dir env ans) w3)) \<and>
           npm_runs (events w') = npm_runs (events w) + 1 \<and>
           ExecSync (js ''git init'') (project_dir env ans) \<in> set (events w') \<and>
           last (events w') = Log (js ''Happy coding!'') (js ''magenta'') \<and>
           (\<not> fst (execSync env (js ''npm install'') (project_dir env ans)
                     (snd (execSync env (js ''pnpm install'') (project_dir env ans) (files w3))))
            \<longrightarrow> events (installDependencies env (project_dir env ans) w3) =
                  events w3 @
                    [LogInfo (js ''Installing dependencies...''),
                     ExecSync (js ''pnpm install'') (project_dir env ans),
                     LogWarning (js ''Failed to install dependencies with pnpm, trying npm...''),
                     ExecSync (js ''npm install'') (project_dir env ans),
                     LogWarning (js ''Failed to install dependencies automatically''),
                     LogInfo install_hint])"
proof -
  let ?p = "project_dir env ans"
  let ?w' = "displaySuccessMessage (trim (name_line ans)) (project_path env ans)
               (createInitialCommit env ?p (installDependencies env ?p w3))"
  have run: "createNewApp env fuel ans w = Some (0, ?w')"
    using assms by (simp add: createNewApp_def createNewApp_try_scaffold scaffold_def)
  have "npm_runs (events w3) = npm_runs (events w)"
    using events_createProjectDirectory [OF assms(3)] events_copyTemplateFiles [OF assms(4)]
      events_updateConfigFiles [OF assms(5)]
    by auto
  then have "npm_runs (events ?w') = npm_runs (events w) + 1"
    by (simp add: installDependencies_fallback [OF assms(6)])
  moreover have "ExecSync (js ''git init'') ?p \<in> set (events ?w')"
    using git_init_attempted [of ?p env] by (simp add: displaySuccessMessage_def)
  ultimately show ?thesis
    using run last_events_displaySuccessMessage installDependencies_both_fail [OF assms(6)]
    by blast
qed

text \<open>
  The theorem at the example run, where both package managers fail.
\<close>

theorem install_fallback_once_witness:
  "\<exists>w'. createNewApp demo_env 0 demo_answers demo_world = Some (0, w') \<and>
     w' = demo_final \<and>
     npm_runs (events w') = 1 \<and>
     ExecSync (js ''git init'') [js ''work'', js ''app''] \<in> set (events w') \<and>
     last (events w') = Log (js ''Happy coding!'') (js ''magenta'') \<and>
     events (installDependencies demo_env [js ''work'', js ''app''] demo_before_install) =
       events demo_before_install @
         [LogInfo (js ''Installing dependencies...''),
          ExecSync (js ''pnpm install'') [js ''work'', js ''app''],
          LogWarning (js ''Failed to install dependencies with pnpm, trying npm...''),
          ExecSync (js ''npm install'') [js ''work'', js ''app''],
          LogWarning (js ''Failed to install dependencies automatically''),
          LogInfo install_hint]"
proof -
  have npm: "\<not> fst (execSync demo_env (js ''npm install'') (project_dir demo_env demo_answers)
               (snd (execSync demo_env (js ''pnpm install'') (project_dir demo_env demo_answers)
                      (files demo_before_install))))"
    by (simp add: demo_env_def)
  have "npm_runs (events demo_before_install) = 0" "npm_runs (events demo_world) = 0"
    by (simp_all add: demo_before_install_def demo_world_def)
  with install_fallback_once [OF demo_steps(1,2,3) demo_steps(4) [of 0] demo_steps(5,6)] npm
  show ?thesis
    by (simp add: demo_trim demo_dir demo_finished)
qed



subsection \<open>Rewriting the manifest and the README\<close>

lemma replace_from_absent:
  "\<not> sublist token s \<Longrightarrow> replace_from token r pre s = s"
proof (induction s arbitrary: pre)
  case Nil
  then show ?case by simp
next
  case (Cons c cs)
  then have "\<not> prefix token (c # cs)" and "\<not> sublist token cs"
    by (auto simp: sublist_Cons_right)
  with Cons.IH show ?case by simp
qed

lemma replace_all_absent: "\<not> sublist token s \<Longrightarrow> replace_all token r s = s"
  by (simp add: replace_all_def replace_from_absent)

lemma set_property_twice:
  assumes "set_property v (js ''name'') n = Inr v1" "set_property v1 (js ''description'') d = Inr v2"
  shows "set_property v2 (js ''name'') n = Inr v2" "set_property v2 (js ''description'') d = Inr v2"
  using assms
  by (auto simp: set_property_def update_conv' intro!: update_triv split: json.splits)



lemma set_property_fields:
  assumes "set_property (JObj props) (js ''name'') n = Inr v1" "set_property v1 (js ''description'') d = Inr v2"
  shows "get_property v2 (js ''name'') = Some (JStr n)" "get_property v2 (js ''description'') = Some (JStr d)"
  using assms
  by (auto simp: set_property_def get_property_def update_conv' split: json.splits)

lemma writeFileSync_same:
  "map_of t p = Some (File c) \<Longrightarrow> writeFileSync p c t = Inr t"
  by (simp add: writeFileSync_def update_triv)

lemma writeFileSync_map_of:
  "writeFileSync p c t = Inr t' \<Longrightarrow> map_of t' = (map_of t)(p \<mapsto> File c)"
  by (auto simp: writeFileSync_def update_conv' split: option.splits node.splits if_splits)

lemma update_package_json_absent:
  "\<not> existsSync (p @ [js ''package.json'']) (files w) \<Longrightarrow> update_package_json env p cfg w = Ok w"
  by (simp add: update_package_json_def)

lemma update_package_json_present:
  assumes "update_package_json env p cfg w = Ok w1"
    and "existsSync (p @ [js ''package.json'']) (files w)"
  obtains raw v v1 v2 t where
    "readFileSync (p @ [js ''package.json'']) (files w) = Inr raw"
    "JSON_parse env raw = Some v"
    "set_property v (js ''name'') (config_name cfg) = Inr v1"
    "set_property v1 (js ''description'') (config_description cfg) = Inr v2"
    "writeFileSync (p @ [js ''package.json'']) (JSON_stringify env v2) (files w) = Inr t"
    "w1 = w\<lparr>files := t\<rparr>"
  using assms
  by (auto simp: update_package_json_def Let_def split: sum.splits option.splits)

lemma update_readme_absent:
  "\<not> existsSync (p @ [js ''README.md'']) (files w) \<Longrightarrow> update_readme p cfg w = Ok w"
  by (simp add: update_readme_def)

lemma update_readme_present:
  assumes "update_readme p cfg w = Ok w1"
    and "existsSync (p @ [js ''README.md'']) (files w)"
  obtains readme t where
    "readFileSync (p @ [js ''README.md'']) (files w) = Inr readme"
    "writeFileSync (p @ [js ''README.md''])
       (replace_all (js ''{{PROJECT_DESCRIPTION}}'') (config_description cfg)
         (replace_all (js ''{{PROJECT_NAME}}'') (config_name cfg) readme)) (files w) = Inr t"
    "w1 = w\<lparr>files := t\<rparr>"
  using assms
  by (auto simp: update_readme_def Let_def split: sum.splits option.splits)

lemma update_package_json_fixed:
  assumes "map_of (files w) (p @ [js ''package.json'']) = Some (File (JSON_stringify env v2))"
    and "JSON_parse env (JSON_stringify env v2) = Some v2"
    and "set_property v2 (js ''name'') (config_name cfg) = Inr v2"
    and "set_property v2 (js ''description'') (config_description cfg) = Inr v2"
  shows "update_package_json env p cfg w = Ok w"
  using assms
  by (simp add: update_package_json_def existsSync_def readFileSync_def writeFileSync_same)

lemma update_readme_fixed:
  assumes "map_of (files w) (p @ [js ''README.md'']) = Some (File c)" and "token_free c"
  shows "update_readme p cfg w = Ok w"
  using assms
  by (simp add: update_readme_def existsSync_def readFileSync_def writeFileSync_same
      token_free_def replace_all_absent)

lemma update_package_json_idem:
  assumes first: "update_package_json env p cfg w = Ok w1"
    and rb: "\<forall>raw. readFileSync (p @ [js ''package.json'']) (files w) = Inr raw
                 \<longrightarrow> manifest_reads_back env cfg raw"
    and same: "map_of (files w') (p @ [js ''package.json'']) = map_of (files w1) (p @ [js ''package.json''])"
  shows "update_package_json env p cfg w' = Ok w'"
proof (cases "existsSync (p @ [js ''package.json'']) (files w)")
  case False
  with first have "w1 = w" by (simp add: update_package_json_absent)
  with False same show ?thesis
    by (simp add: update_package_json_absent existsSync_def)
next
  case True
  from first True obtain raw v v1 v2 t where
    r: "readFileSync (p @ [js ''package.json'']) (files w) = Inr raw"
    and v: "JSON_parse env raw = Some v"
    and v1: "set_property v (js ''name'') (config_name cfg) = Inr v1"
    and v2: "set_property v1 (js ''description'') (config_description cfg) = Inr v2"
    and t: "writeFileSync (p @ [js ''package.json'']) (JSON_stringify env v2) (files w) = Inr t"
    and w1: "w1 = w\<lparr>files := t\<rparr>"
    by (rule update_package_json_present)
  from rb r v v1 v2 have "JSON_parse env (JSON_stringify env v2) = Some v2"
    by (simp add: manifest_reads_back_def)
  moreover from same w1 writeFileSync_map_of [OF t]
  have "map_of (files w') (p @ [js ''package.json'']) = Some (File (JSON_stringify env v2))"
    by simp
  ultimately show ?thesis
    using set_property_twice [OF v1 v2] by (intro update_package_json_fixed)
qed

lemma update_readme_files:
  "update_readme p cfg w = Ok w1 \<Longrightarrow>
   map_of (files w1) q = map_of (files w) q \<or>
   (q = p @ [js ''README.md''] \<and> (\<exists>c. map_of (files w1) q = Some (File c)))"
  by (cases "existsSync (p @ [js ''README.md'']) (files w)")
     (auto simp: update_readme_absent elim!: update_readme_present dest!: writeFileSync_map_of
       split: if_splits)

lemma update_package_json_files:
  "update_package_json env p cfg w = Ok w1 \<Longrightarrow>
   map_of (files w1) q = map_of (files w) q \<or>
   (q = p @ [js ''package.json''] \<and> (\<exists>c. map_of (files w1) q = Some (File c)))"
  by (cases "existsSync (p @ [js ''package.json'']) (files w)")
     (auto simp: update_package_json_absent elim!: update_package_json_present
       dest!: writeFileSync_map_of split: if_splits)

lemma update_readme_idem:
  assumes first: "update_readme p cfg w = Ok w1"
    and free: "\<forall>c. readFileSync (p @ [js ''README.md'']) (files w1) = Inr c \<longrightarrow> token_free c"
    and same: "files w' = files w1"
  shows "update_readme p cfg w' = Ok w'"
proof (cases "map_of (files w1) (p @ [js ''README.md''])")
  case None
  with same show ?thesis by (simp add: update_readme_absent existsSync_def)
next
  case (Some n)
  have "\<exists>c. n = File c"
  proof (cases "existsSync (p @ [js ''README.md'']) (files w)")
    case True
    with first Some show ?thesis
      by (auto elim!: update_readme_present dest!: writeFileSync_map_of)
  next
    case False
    with first have "w1 = w" by (simp add: update_readme_absent)
    with False Some show ?thesis by (simp add: existsSync_def)
  qed
  then obtain c where "n = File c" ..
  with Some free same show ?thesis
    by (intro update_readme_fixed [of _ _ c]) (auto simp: readFileSync_def)
qed

lemmas update_defs =
  updateConfigFiles_def update_package_json_def update_readme_def Let_def existsSync_def
  readFileSync_def writeFileSync_def set_property_def replace_all_def emit_def

lemmas helper_defs =
  manifest_in_def manifest_value_in_def manifest_value_out_def manifest_out_def table_env_def
  helper_config_def helper_fs_def helper_before_def helper_after_def

lemma helper_update:
  "updateConfigFiles table_env [js ''work'', js ''helper-app''] helper_config helper_before
     = Ok helper_after"
  by (simp add: update_defs helper_defs js_def)

lemma helper_token_free: "token_free (js ''# helper-app: welcome to helper-app'')"
  unfolding token_free_def by code_simp

lemma helper_reads_back: "manifest_reads_back table_env helper_config manifest_in"
  by (simp add: manifest_reads_back_def set_property_def helper_defs js_def)

lemma helper_manifest_before:
  "readFileSync ([js ''work'', js ''helper-app''] @ [js ''package.json'']) (files helper_before)
     = Inr manifest_in"
  by (simp add: readFileSync_def helper_fs_def helper_before_def)

lemma helper_readme_after:
  "readFileSync ([js ''work'', js ''helper-app''] @ [js ''README.md'']) (files helper_after)
     = Inr (js ''# helper-app: welcome to helper-app'')"
  by (simp add: readFileSync_def helper_fs_def helper_after_def)

text \<open>
  C4 at a description with dollar signs.  The README holds both tokens; the description
  typed is \<^verbatim>\<open>Costs $$5 a month\<close>.  The script writes \<^verbatim>\<open>Costs $5 a month\<close>: the
  replacement text went through the dollar patterns of \<^verbatim>\<open>String.prototype.replace\<close>
  and is not the description, so the replacement is not the literal one the claim
  describes.
\<close>

theorem readme_dollar_expansion:
  "update_readme [js ''app''] dollar_config
     \<lparr>files = readme_fs (js ''{{PROJECT_NAME}}: {{PROJECT_DESCRIPTION}}''), events = []\<rparr> =
   Ok \<lparr>files = readme_fs (js ''app: Costs $5 a month''), events = []\<rparr> \<and>
   js ''app: Costs $5 a month'' \<noteq> js ''app: '' @ config_description dollar_config"
  by (simp add: update_defs dollar_config_def readme_fs_def js_def)

lemma manifest_not_dir:
  assumes "update_package_json env p cfg w = Ok w1"
  shows "map_of (files w1) (p @ [js ''package.json'']) \<noteq> Some Dir"
proof (cases "existsSync (p @ [js ''package.json'']) (files w)")
  case False
  with assms show ?thesis
    by (simp add: update_package_json_absent existsSync_def)
next
  case True
  with assms show ?thesis
    by (auto elim!: update_package_json_present dest!: writeFileSync_map_of)
qed

lemma readme_not_dir:
  assumes "update_readme p cfg w = Ok w1"
  shows "map_of (files w1) (p @ [js ''README.md'']) \<noteq> Some Dir"
proof (cases "existsSync (p @ [js ''README.md'']) (files w)")
  case False
  with assms show ?thesis
    by (simp add: update_readme_absent existsSync_def)
next
  case True
  with assms show ?thesis
    by (auto elim!: update_readme_present dest!: writeFileSync_map_of)
qed

lemma update_package_json_settled:
  assumes "\<forall>raw. readFileSync (p @ [js ''package.json'']) (files w) = Inr raw
             \<longrightarrow> manifest_settled env cfg raw"
    and "map_of (files w) (p @ [js ''package.json'']) \<noteq> Some Dir"
  shows "update_package_json env p cfg w = Ok w"
proof (cases "map_of (files w) (p @ [js ''package.json''])")
  case None
  then show ?thesis
    by (simp add: update_package_json_absent existsSync_def)
next
  case (Some n)
  with assms(2) obtain raw where n: "n = File raw"
    by (cases n) auto
  with Some assms(1) have "manifest_settled env cfg raw"
    by (simp add: readFileSync_def)
  with Some n show ?thesis
    by (auto simp: manifest_settled_def update_package_json_def existsSync_def readFileSync_def
        writeFileSync_same split: option.splits sum.splits)
qed

lemma update_package_json_unchanged:
  assumes "update_package_json env p cfg w = Ok w1"
    and "map_of (files w1) (p @ [js ''package.json'']) = map_of (files w) (p @ [js ''package.json''])"
  shows "w1 = w"
    and "\<forall>raw. readFileSync (p @ [js ''package.json'']) (files w) = Inr raw
           \<longrightarrow> manifest_settled env cfg raw"
proof -
  have "w1 = w \<and> (\<forall>raw. readFileSync (p @ [js ''package.json'']) (files w) = Inr raw
           \<longrightarrow> manifest_settled env cfg raw)"
  proof (cases "existsSync (p @ [js ''package.json'']) (files w)")
    case False
    with assms(1) show ?thesis
      by (auto simp: update_package_json_absent existsSync_def readFileSync_def)
  next
    case True
    from assms(1) True obtain raw v v1 v2 t where
      r: "readFileSync (p @ [js ''package.json'']) (files w) = Inr raw"
      and v: "JSON_parse env raw = Some v"
      and v1: "set_property v (js ''name'') (config_name cfg) = Inr v1"
      and v2: "set_property v1 (js ''description'') (config_description cfg) = Inr v2"
      and t: "writeFileSync (p @ [js ''package.json'']) (JSON_stringify env v2) (files w) = Inr t"
      and w1: "w1 = w\<lparr>files := t\<rparr>"
      by (rule update_package_json_present)
    from assms(2) w1 writeFileSync_map_of [OF t]
    have same: "map_of (files w) (p @ [js ''package.json'']) = Some (File (JSON_stringify env v2))"
      by simp
    with r have raw: "raw = JSON_stringify env v2"
      by (simp add: readFileSync_def)
    from same t have "t = files w"
      by (simp add: writeFileSync_same)
    with w1 have "w1 = w"
      by simp
    moreover from v v1 v2 raw have "manifest_settled env cfg raw"
      by (simp add: manifest_settled_def)
    ultimately show ?thesis
      using r by simp
  qed
  then show "w1 = w"
    and "\<forall>raw. readFileSync (p @ [js ''package.json'']) (files w) = Inr raw
           \<longrightarrow> manifest_settled env cfg raw"
    by simp_all
qed

lemma update_readme_settled:
  assumes "\<forall>c. readFileSync (p @ [js ''README.md'']) (files w) = Inr c \<longrightarrow> readme_settled cfg c"
    and "map_of (files w) (p @ [js ''README.md'']) \<noteq> Some Dir"
  shows "update_readme p cfg w = Ok w"
proof (cases "map_of (files w) (p @ [js ''README.md''])")
  case None
  then show ?thesis
    by (simp add: update_readme_absent existsSync_def)
next
  case (Some n)
  with assms(2) obtain c where n: "n = File c"
    by (cases n) auto
  with Some assms(1) have "readme_settled cfg c"
    by (simp add: readFileSync_def)
  with Some n show ?thesis
    by (simp add: readme_settled_def update_readme_def existsSync_def readFileSync_def
        writeFileSync_same)
qed

lemma update_readme_unchanged:
  assumes "update_readme p cfg w = Ok w1"
    and "map_of (files w1) (p @ [js ''README.md'']) = map_of (files w) (p @ [js ''README.md''])"
  shows "\<forall>c. readFileSync (p @ [js ''README.md'']) (files w) = Inr c \<longrightarrow> readme_settled cfg c"
proof (cases "existsSync (p @ [js ''README.md'']) (files w)")
  case False
  then show ?thesis
    by (auto simp: existsSync_def readFileSync_def)
next
  case True
  from assms(1) True obtain readme t where
    r: "readFileSync (p @ [js ''README.md'']) (files w) = Inr readme"
    and t: "writeFileSync (p @ [js ''README.md''])
       (replace_all (js ''{{PROJECT_DESCRIPTION}}'') (config_description cfg)
         (replace_all (js ''{{PROJECT_NAME}}'') (config_name cfg) readme)) (files w) = Inr t"
    and w1: "w1 = w\<lparr>files := t\<rparr>"
    by (rule update_readme_present)
  from assms(2) w1 writeFileSync_map_of [OF t] r
  have "readme_settled cfg readme"
    by (auto simp: readme_settled_def readFileSync_def split: option.splits node.splits)
  with r show ?thesis
    by simp
qed

lemma token_free_settled: "token_free c \<Longrightarrow> readme_settled cfg c"
  by (simp add: token_free_def readme_settled_def replace_all_absent)

lemma reads_back_settled:
  assumes "update_package_json env p cfg w = Ok w1"
    and "readFileSync (p @ [js ''package.json'']) (files w) = Inr raw"
    and "manifest_reads_back env cfg raw"
    and "readFileSync (p @ [js ''package.json'']) (files w1) = Inr raw1"
  shows "manifest_settled env cfg raw1"
proof -
  from assms(2) have ex: "existsSync (p @ [js ''package.json'']) (files w)"
    by (auto simp: existsSync_def readFileSync_def split: option.splits)
  from assms(1) ex obtain raw0 v v1 v2 t where
    r: "readFileSync (p @ [js ''package.json'']) (files w) = Inr raw0"
    and v: "JSON_parse env raw0 = Some v"
    and v1: "set_property v (js ''name'') (config_name cfg) = Inr v1"
    and v2: "set_property v1 (js ''description'') (config_description cfg) = Inr v2"
    and t: "writeFileSync (p @ [js ''package.json'']) (JSON_stringify env v2) (files w) = Inr t"
    and w1: "w1 = w\<lparr>files := t\<rparr>"
    by (rule update_package_json_present)
  from r assms(2) have [simp]: "raw0 = raw"
    by simp
  from assms(3) v v1 v2 have rb: "JSON_parse env (JSON_stringify env v2) = Some v2"
    by (simp add: manifest_reads_back_def)
  from assms(4) w1 writeFileSync_map_of [OF t] have "raw1 = JSON_stringify env v2"
    by (simp add: readFileSync_def)
  with rb set_property_twice [OF v1 v2] show ?thesis
    by (simp add: manifest_settled_def)
qed

lemma manifest_readme_apart: "p @ [js ''package.json''] \<noteq> p @ [js ''README.md'']"
  by simp

text \<open>
  C5, as the script has it.  Let the update step have run once.  Running it a second
  time with the same answers returns and leaves every file as the first run wrote it
  exactly when both files are settled: replacing the tokens in the README the first run
  wrote gives the same text, and the manifest the first run wrote parses to a value that,
  with both fields set again, is serialised to the same text.  A README with no token
  left in it is settled, and so is a manifest that the codec reads back as the value that
  was written.
\<close>

theorem substitution_idempotent:
  assumes "updateConfigFiles env p cfg w = Ok w1"
  shows "((\<exists>w2. updateConfigFiles env p cfg w1 = Ok w2 \<and> files w2 = files w1) \<longleftrightarrow>
            (\<forall>raw. readFileSync (p @ [js ''package.json'']) (files w1) = Inr raw
                   \<longrightarrow> manifest_settled env cfg raw) \<and>
            (\<forall>c. readFileSync (p @ [js ''README.md'']) (files w1) = Inr c
                   \<longrightarrow> readme_settled cfg c)) \<and>
         (\<forall>c. token_free c \<longrightarrow> readme_settled cfg c) \<and>
         (\<forall>raw raw1. readFileSync (p @ [js ''package.json'']) (files w) = Inr raw \<and>
                     manifest_reads_back env cfg raw \<and>
                     readFileSync (p @ [js ''package.json'']) (files w1) = Inr raw1
                     \<longrightarrow> manifest_settled env cfg raw1)"
proof (intro conjI allI impI iffI)
  let ?P = "p @ [js ''package.json'']"
  let ?R = "p @ [js ''README.md'']"
  from assms obtain wa wb where
    a: "update_package_json env p cfg w = Ok wa"
    and b: "update_readme p cfg wa = Ok wb"
    and w1: "w1 = emit [LogSuccess (js ''Updated configuration files'')] wb"
    by (auto simp: updateConfigFiles_def split: result.splits)
  have keepP: "map_of (files w'') ?P = map_of (files w') ?P"
    if "update_readme p cfg w' = Ok w''" for w' w''
    using update_readme_files [OF that, of ?P] by auto
  have keepR: "map_of (files w'') ?R = map_of (files w') ?R"
    if "update_package_json env p cfg w' = Ok w''" for w' w''
    using update_package_json_files [OF that, of ?R] by auto
  have P1: "map_of (files w1) ?P \<noteq> Some Dir"
    using manifest_not_dir [OF a] keepP [OF b] w1 by simp
  have R1: "map_of (files w1) ?R \<noteq> Some Dir"
    using readme_not_dir [OF b] w1 by simp
  {
    assume "\<exists>w2. updateConfigFiles env p cfg w1 = Ok w2 \<and> files w2 = files w1"
    then obtain w2 where run: "updateConfigFiles env p cfg w1 = Ok w2"
      and same: "files w2 = files w1"
      by blast
    from run obtain wa2 wb2 where
      a2: "update_package_json env p cfg w1 = Ok wa2"
      and b2: "update_readme p cfg wa2 = Ok wb2"
      and w2: "w2 = emit [LogSuccess (js ''Updated configuration files'')] wb2"
      by (auto simp: updateConfigFiles_def split: result.splits)
    from same w2 have fb: "files wb2 = files w1"
      by simp
    have "map_of (files wa2) ?P = map_of (files w1) ?P"
      using keepP [OF b2] fb by simp
    from update_package_json_unchanged [OF a2 this]
    have wa2: "wa2 = w1"
      and m: "\<forall>raw. readFileSync ?P (files w1) = Inr raw \<longrightarrow> manifest_settled env cfg raw"
      by simp_all
    from b2 wa2 fb have "update_readme p cfg w1 = Ok wb2"
      and "map_of (files wb2) ?R = map_of (files w1) ?R"
      by simp_all
    then have r: "\<forall>c. readFileSync ?R (files w1) = Inr c \<longrightarrow> readme_settled cfg c"
      by (rule update_readme_unchanged)
    note m r
  }
  note forward = this
  show "manifest_settled env cfg raw"
    if "\<exists>w2. updateConfigFiles env p cfg w1 = Ok w2 \<and> files w2 = files w1"
      and "readFileSync ?P (files w1) = Inr raw" for raw
    using forward(1) [OF that(1)] that(2) by simp
  show "readme_settled cfg c"
    if "\<exists>w2. updateConfigFiles env p cfg w1 = Ok w2 \<and> files w2 = files w1"
      and "readFileSync ?R (files w1) = Inr c" for c
    using forward(2) [OF that(1)] that(2) by simp
  show "\<exists>w2. updateConfigFiles env p cfg w1 = Ok w2 \<and> files w2 = files w1"
    if "(\<forall>raw. readFileSync ?P (files w1) = Inr raw \<longrightarrow> manifest_settled env cfg raw) \<and>
        (\<forall>c. readFileSync ?R (files w1) = Inr c \<longrightarrow> readme_settled cfg c)"
  proof -
    from that P1 have "update_package_json env p cfg w1 = Ok w1"
      by (intro update_package_json_settled) simp_all
    moreover from that R1 have "update_readme p cfg w1 = Ok w1"
      by (intro update_readme_settled) simp_all
    ultimately show ?thesis
      by (simp add: updateConfigFiles_def)
  qed
  show "readme_settled cfg c" if "token_free c" for c
    using that by (rule token_free_settled)
  show "manifest_settled env cfg raw1"
    if "readFileSync ?P (files w) = Inr raw \<and> manifest_reads_back env cfg raw \<and>
        readFileSync ?P (files w1) = Inr raw1" for raw raw1
  proof -
    from that keepP [OF b] w1 have "readFileSync ?P (files wa) = Inr raw1"
      by (simp add: readFileSync_def)
    with a that show ?thesis
      by (intro reads_back_settled [of env p cfg w wa raw raw1]) simp_all
  qed
qed

text \<open>
  The theorem at the end-to-end scenario of the specification: the manifest is read back
  and the README the first run wrote has no token, so the second run leaves the files as
  they are.
\<close>

theorem substitution_idempotent_witness:
  "updateConfigFiles table_env [js ''work'', js ''helper-app''] helper_config helper_before
     = Ok helper_after \<and>
   manifest_reads_back table_env helper_config manifest_in \<and>
   token_free (js ''# helper-app: welcome to helper-app'') \<and>
   (\<exists>w2. updateConfigFiles table_env [js ''work'', js ''helper-app''] helper_config helper_after
            = Ok w2 \<and> files w2 = files helper_after)"
proof -
  note inst = substitution_idempotent [OF helper_update]
  have m: "\<forall>raw. readFileSync ([js ''work'', js ''helper-app''] @ [js ''package.json''])
                    (files helper_after) = Inr raw
                 \<longrightarrow> manifest_settled table_env helper_config raw"
    using inst helper_manifest_before helper_reads_back by blast
  have r: "\<forall>c. readFileSync ([js ''work'', js ''helper-app''] @ [js ''README.md''])
                  (files helper_after) = Inr c
                 \<longrightarrow> readme_settled helper_config c"
    using inst helper_token_free helper_readme_after by auto
  from inst m r have "\<exists>w2. updateConfigFiles table_env [js ''work'', js ''helper-app'']
            helper_config helper_after = Ok w2 \<and> files w2 = files helper_after"
    by blast
  with helper_update helper_reads_back helper_token_free show ?thesis
    by simp
qed

text \<open>
  C5 as the specification words it fails.  The description quotes a placeholder: the
  first run writes it into the README, and the second run replaces it there, so the two
  outputs differ.
\<close>

theorem substitution_not_idempotent_on_tokens:
  "updateConfigFiles demo_env [js ''app''] token_config
     \<lparr>files = readme_fs (js ''{{PROJECT_DESCRIPTION}}''), events = []\<rparr> =
   Ok \<lparr>files = readme_fs (js ''Built from {{PROJECT_NAME}} tokens''),
       events = [LogSuccess (js ''Updated configuration files'')]\<rparr> \<and>
   updateConfigFiles demo_env [js ''app''] token_config
     \<lparr>files = readme_fs (js ''Built from {{PROJECT_NAME}} tokens''),
      events = [LogSuccess (js ''Updated configuration files'')]\<rparr> =
   Ok \<lparr>files = readme_fs (js ''Built from app tokens''),
       events = [LogSuccess (js ''Updated configuration files''),
                 LogSuccess (js ''Updated configuration files'')]\<rparr> \<and>
   readme_fs (js ''Built from app tokens'') \<noteq> readme_fs (js ''Built from {{PROJECT_NAME}} tokens'')"
  by (simp add: update_defs token_config_def readme_fs_def js_def)






subsection \<open>Copying the template\<close>

lemma mkdir_each_no_file:
  "mkdir_each p qs t = Inr t' \<Longrightarrow> q \<in> set qs \<Longrightarrow> map_of t q \<noteq> Some (File c)"
proof (induction qs arbitrary: t)
  case Nil
  then show ?case by simp
next
  case (Cons a qs)
  show ?case
  proof (cases "map_of t a")
    case None
    with Cons.prems(1) have step: "mkdir_each p qs (AList.update a Dir t) = Inr t'" by simp
    show ?thesis
    proof (cases "q = a")
      case True
      with None show ?thesis by simp
    next
      case False
      with Cons.prems(2) have "q \<in> set qs" by simp
      from Cons.IH [OF step this] False show ?thesis by (simp add: update_conv')
    qed
  next
    case (Some n)
    with Cons.prems(1) obtain "n = Dir" and step: "mkdir_each p qs t = Inr t'"
      by (cases n) auto
    with Cons.IH [OF step] Cons.prems(2) Some show ?thesis by (cases "q = a") auto
  qed
qed

lemma mkdir_each_succeeds:
  "\<forall>q\<in>set qs. \<forall>c. map_of t q \<noteq> Some (File c) \<Longrightarrow> \<exists>t'. mkdir_each p qs t = Inr t'"
proof (induction qs arbitrary: t)
  case Nil
  then show ?case by simp
next
  case (Cons a qs)
  show ?case
  proof (cases "map_of t a")
    case None
    have "\<forall>q\<in>set qs. \<forall>c. map_of (AList.update a Dir t) q \<noteq> Some (File c)"
      using Cons.prems by (auto simp: update_conv')
    from Cons.IH [OF this] None show ?thesis by simp
  next
    case (Some n)
    with Cons.prems have "n = Dir" by (cases n) auto
    moreover from Cons.prems have "\<forall>q\<in>set qs. \<forall>c. map_of t q \<noteq> Some (File c)" by simp
    from Cons.IH [OF this] obtain t' where "mkdir_each p qs t = Inr t'" ..
    ultimately show ?thesis using Some by simp
  qed
qed

lemma wfm_mkdirSync:
  assumes "wfm (map_of t)" "mkdirSync p t = Inr t'"
  shows "wfm (map_of t')"
  unfolding wfm_def
proof (intro allI impI)
  fix k assume k: "k \<noteq> [] \<and> map_of t' k \<noteq> None"
  have m': "map_of t' q = (if prefix q p \<and> map_of t q = None then Some Dir else map_of t q)" for q
    by (rule mkdirSync_map_of [OF assms(2)])
  show "map_of t' (butlast k) = Some Dir"
  proof (cases "map_of t k = None")
    case False
    with assms(1) k have "map_of t (butlast k) = Some Dir" unfolding wfm_def by blast
    then show ?thesis by (simp add: m')
  next
    case True
    with k m' [of k] have "prefix k p" by (auto split: if_splits)
    then have pre: "prefix (butlast k) p"
      by (meson prefix_order.trans prefixeq_butlast)
    then have "map_of t (butlast k) \<noteq> Some (File c)" for c
      using mkdir_each_no_file [of p "prefixes p" t t' "butlast k" c] assms(2)
      by (simp add: mkdirSync_def in_set_prefixes)
    then have "map_of t (butlast k) = None \<or> map_of t (butlast k) = Some Dir"
      by (cases "map_of t (butlast k)") (auto intro: node.exhaust)
    with pre show ?thesis by (auto simp: m')
  qed
qed

lemma mkdirSync_child:
  assumes "wfm (map_of t)" "map_of t D = Some Dir" "map_of t (D @ [x]) = None"
  shows "\<exists>t1. mkdirSync (D @ [x]) t = Inr t1 \<and> map_of t1 = (map_of t)(D @ [x] \<mapsto> Dir)"
proof -
  have nofile: "map_of t q \<noteq> Some (File c)" if "prefix q (D @ [x])" for q c
  proof (cases "q = D @ [x]")
    case True
    with assms(3) show ?thesis by simp
  next
    case False
    with that have "prefix q D" by (simp add: prefix_snoc)
    then obtain r where D: "D = q @ r" by (auto simp: prefix_def)
    show ?thesis
    proof (cases "r = []")
      case True
      with D assms(2) show ?thesis by simp
    next
      case False
      with wfm_prefix_Dir [OF assms(1), of q r] D assms(2) show ?thesis by simp
    qed
  qed
  then have "\<exists>t1. mkdir_each (D @ [x]) (prefixes (D @ [x])) t = Inr t1"
    by (intro mkdir_each_succeeds) (auto simp: in_set_prefixes)
  then obtain t1 where t1: "mkdirSync (D @ [x]) t = Inr t1" by (auto simp: mkdirSync_def)
  have "map_of t1 k = ((map_of t)(D @ [x] \<mapsto> Dir)) k" for k
  proof (cases "k = D @ [x]")
    case True
    with assms(3) mkdirSync_map_of [OF t1, of k] show ?thesis by simp
  next
    case False
    show ?thesis
    proof (cases "prefix k (D @ [x]) \<and> map_of t k = None")
      case True
      with False have "prefix k D" by (simp add: prefix_snoc)
      then obtain r where D: "D = k @ r" by (auto simp: prefix_def)
      with True assms(2) have "r \<noteq> []" by auto
      with wfm_prefix_Dir [OF assms(1), of k r] D assms(2) True show ?thesis by simp
    next
      case no: False
      with False mkdirSync_map_of [OF t1, of k] show ?thesis by auto
    qed
  qed
  with t1 show ?thesis by auto
qed

lemma wfm_upd:
  assumes "wfm m" "k \<noteq> []" "m (butlast k) = Some Dir" "m k = None"
  shows "wfm (m(k \<mapsto> n))"
  unfolding wfm_def
proof (intro allI impI)
  fix q assume q: "q \<noteq> [] \<and> (m(k \<mapsto> n)) q \<noteq> None"
  show "(m(k \<mapsto> n)) (butlast q) = Some Dir"
  proof (cases "q = k")
    case True
    with assms have "butlast q \<noteq> k" by auto
    with True assms(3) show ?thesis by simp
  next
    case False
    with q assms(1) have *: "m (butlast q) = Some Dir" unfolding wfm_def by auto
    with assms(4) have "butlast q \<noteq> k" by auto
    with * show ?thesis by simp
  qed
qed

lemma set_children:
  "set (children p t) = {k. map_of t k \<noteq> None \<and> k \<noteq> [] \<and> butlast k = p}"
proof -
  have "k \<in> fst ` set t \<longleftrightarrow> map_of t k \<noteq> None" for k
    by (simp add: map_of_eq_None_iff)
  then show ?thesis by (auto simp: children_def)
qed

lemma distinct_children: "distinct (children p t)"
  by (simp add: children_def)

lemma fs_depth_bound: "map_of t k \<noteq> None \<Longrightarrow> length k \<le> fs_depth t"
proof -
  have *: "x \<le> fold max xs (a::nat)" if "x \<in> set xs \<or> x \<le> a" for x xs a
    using that by (induction xs arbitrary: a) (auto simp: max_def)
  assume "map_of t k \<noteq> None"
  then have "k \<in> fst ` set t" by (simp add: map_of_eq_None_iff)
  then have "length k \<in> set (map (\<lambda>e. length (fst e)) t)" by auto
  then show ?thesis unfolding fs_depth_def by (intro *) simp
qed

lemma prefix_child_iff: "prefix (D @ [x]) q \<longleftrightarrow> (\<exists>r. q = D @ x # r)"
  by (auto simp: prefix_def)

lemma strict_prefix_iff_child: "strict_prefix D q \<longleftrightarrow> (\<exists>x r. q = D @ x # r)"
  by (auto elim: strict_prefixE' intro: strict_prefixI')

lemma apart_append:
  assumes "\<not> prefix S D" "\<not> prefix D S"
  shows "S @ q \<noteq> D @ r"
proof
  assume "S @ q = D @ r"
  then have "prefix S (D @ r)" "prefix D (D @ r)" by (metis prefixI)+
  then have "prefix S D \<or> prefix D S" by (rule prefix_same_cases)
  with assms show False by blast
qed

lemma gn_source:
  assumes "\<not> prefix S D" "\<not> prefix D S"
  shows "grafted_names m S D X (S @ q) = m (S @ q)"
  using apart_append [OF assms] by (auto simp: grafted_names_def prefix_child_iff)

lemma gn_above:
  assumes "prefix q D"
  shows "grafted_names m S D X q = m q"
proof -
  have "\<not> prefix (D @ [x]) q" for x
    using assms by (auto simp: prefix_def)
  then show ?thesis by (simp add: grafted_names_def)
qed

lemma gn_fresh:
  assumes "x \<notin> X" "\<forall>q. q \<noteq> [] \<longrightarrow> m (D @ q) = None"
  shows "grafted_names m S D X (D @ x # r) = None"
  using assms by (auto simp: grafted_names_def prefix_child_iff)

lemma gn_other:
  assumes "\<not> prefix (D @ [x]) q"
  shows "grafted_names m S D (insert x X) q = grafted_names m S D X q"
  using assms by (auto simp: grafted_names_def)

lemma gn_child:
  "grafted_names m S D (insert x X) (D @ x # r) = m (S @ x # r)"
  by (auto simp: grafted_names_def prefix_child_iff)

lemma wfm_gn:
  assumes "copy_ready n S D m"
  shows "wfm (grafted_names m S D X)"
  unfolding wfm_def
proof (intro allI impI)
  fix q assume q: "q \<noteq> [] \<and> grafted_names m S D X q \<noteq> None"
  from assms have wf: "wfm m" and D: "m D = Some Dir" by (auto simp: copy_ready_def)
  show "grafted_names m S D X (butlast q) = Some Dir"
  proof (cases "\<exists>x\<in>X. prefix (D @ [x]) q")
    case True
    then obtain x r where x: "x \<in> X" and qq: "q = D @ x # r" by (auto simp: prefix_child_iff)
    with q have val: "m (S @ x # r) \<noteq> None" by (auto simp: grafted_names_def prefix_child_iff)
    show ?thesis
    proof (cases "r = []")
      case True
      with qq have "butlast q = D" by (simp add: butlast_append)
      with D show ?thesis by (simp add: gn_above)
    next
      case False
      with qq have b: "butlast q = D @ x # butlast r" by (simp add: butlast_append)
      from wf val have "m (butlast (S @ x # r)) = Some Dir" unfolding wfm_def by blast
      with False have "m (S @ x # butlast r) = Some Dir" by (simp add: butlast_append)
      with x b show ?thesis by (auto simp: grafted_names_def prefix_child_iff)
    qed
  next
    case False
    with q have "m q \<noteq> None" by (auto simp: grafted_names_def)
    with wf q have *: "m (butlast q) = Some Dir" unfolding wfm_def by blast
    have "\<not> (\<exists>x\<in>X. prefix (D @ [x]) (butlast q))"
      using False by (meson prefix_order.trans prefixeq_butlast)
    with * show ?thesis by (auto simp: grafted_names_def)
  qed
qed

lemma ready_child:
  assumes r: "copy_ready (Suc n) S D m" and x: "x \<notin> X" and d: "m (S @ [x]) = Some Dir"
  shows "copy_ready n (S @ [x]) (D @ [x]) ((grafted_names m S D X)(D @ [x] \<mapsto> Dir))"
proof -
  let ?g = "grafted_names m S D X"
  from r have ap: "\<not> prefix S D" "\<not> prefix D S"
    and empty: "\<forall>q. q \<noteq> [] \<longrightarrow> m (D @ q) = None"
    and D: "m D = Some Dir"
    and depth: "\<forall>q. m (S @ q) \<noteq> None \<longrightarrow> length q < Suc n"
    by (auto simp: copy_ready_def)
  have gD: "?g D = Some Dir" using D by (simp add: gn_above)
  have gx: "?g (D @ [x]) = None" using gn_fresh [OF x empty, of S "[]"] by simp
  have ne: "S @ x # q \<noteq> D @ [x]" for q
    using apart_append [OF ap, of "x # q" "[x]"] by simp
  have "wfm (?g(D @ [x] \<mapsto> Dir))"
    using wfm_gn [OF r] gD gx by (intro wfm_upd) (simp_all add: butlast_append)
  moreover have "(?g(D @ [x] \<mapsto> Dir)) (S @ [x]) = Some Dir"
    using ne [of "[]"] gn_source [OF ap, of m X "[x]"] d by simp
  moreover have "(?g(D @ [x] \<mapsto> Dir)) (D @ [x]) = Some Dir" by simp
  moreover have "\<forall>q. q \<noteq> [] \<longrightarrow> (?g(D @ [x] \<mapsto> Dir)) ((D @ [x]) @ q) = None"
    using gn_fresh [OF x empty, of S] by simp
  moreover have "\<not> prefix (S @ [x]) (D @ [x])" "\<not> prefix (D @ [x]) (S @ [x])"
    using ap by (auto simp: prefix_snoc dest: append_prefixD)
  moreover have "\<forall>q. (?g(D @ [x] \<mapsto> Dir)) ((S @ [x]) @ q) \<noteq> None \<longrightarrow> length q < n"
  proof (intro allI impI)
    fix q assume "(?g(D @ [x] \<mapsto> Dir)) ((S @ [x]) @ q) \<noteq> None"
    with ne [of q] gn_source [OF ap, of m X "x # q"] have "m (S @ x # q) \<noteq> None" by simp
    with depth have "length (x # q) < Suc n" by blast
    then show "length q < n" by simp
  qed
  ultimately show ?thesis unfolding copy_ready_def by blast
qed

lemma gn_insert_dir:
  assumes r: "copy_ready (Suc n) S D m" and x: "x \<notin> X" and d: "m (S @ [x]) = Some Dir"
  shows "grafted ((grafted_names m S D X)(D @ [x] \<mapsto> Dir)) (S @ [x]) (D @ [x])
         = grafted_names m S D (insert x X)"
proof
  fix q
  let ?g = "grafted_names m S D X"
  from r have ap: "\<not> prefix S D" "\<not> prefix D S" by (auto simp: copy_ready_def)
  have ne: "S @ x # r \<noteq> D @ [x]" for r
    using apart_append [OF ap, of "x # r" "[x]"] by simp
  show "grafted (?g(D @ [x] \<mapsto> Dir)) (S @ [x]) (D @ [x]) q = grafted_names m S D (insert x X) q"
  proof (cases "prefix (D @ [x]) q")
    case True
    then obtain r' where q: "q = D @ x # r'" by (auto simp: prefix_child_iff)
    show ?thesis
    proof (cases "r' = []")
      case True
      with q d show ?thesis
        using gn_child [of m S D x X "[]"] by (simp add: grafted_def)
    next
      case False
      with q have "strict_prefix (D @ [x]) q" by (auto simp: strict_prefix_def)
      with q ne [of r'] gn_source [OF ap, of m X "x # r'"] gn_child [of m S D x X r']
      show ?thesis by (simp add: grafted_def)
    qed
  next
    case False
    then have "\<not> strict_prefix (D @ [x]) q" "q \<noteq> D @ [x]" by (auto simp: strict_prefix_def)
    with gn_other [OF False] show ?thesis by (simp add: grafted_def)
  qed
qed

lemma gn_insert_file:
  assumes r: "copy_ready n S D m" and x: "x \<notin> X" and f: "m (S @ [x]) = Some (File c)"
  shows "(grafted_names m S D X)(D @ [x] \<mapsto> File c) = grafted_names m S D (insert x X)"
proof
  fix q
  let ?g = "grafted_names m S D X"
  from r have wf: "wfm m" and empty: "\<forall>q. q \<noteq> [] \<longrightarrow> m (D @ q) = None"
    by (auto simp: copy_ready_def)
  show "(?g(D @ [x] \<mapsto> File c)) q = grafted_names m S D (insert x X) q"
  proof (cases "prefix (D @ [x]) q")
    case True
    then obtain r' where q: "q = D @ x # r'" by (auto simp: prefix_child_iff)
    show ?thesis
    proof (cases "r' = []")
      case True
      with q f show ?thesis using gn_child [of m S D x X "[]"] by simp
    next
      case False
      have "m (S @ x # r') = None"
      proof (rule ccontr)
        assume "m (S @ x # r') \<noteq> None"
        with wfm_prefix_Dir [OF wf, of "S @ [x]" r'] False have "m (S @ [x]) = Some Dir" by simp
        with f show False by simp
      qed
      with q False gn_fresh [OF x empty, of S r'] gn_child [of m S D x X r']
      show ?thesis by simp
    qed
  next
    case False
    then have "q \<noteq> D @ [x]" by auto
    with gn_other [OF False] show ?thesis by simp
  qed
qed

lemma gn_all:
  assumes r: "copy_ready n S D m" and X: "X = {x. m (S @ [x]) \<noteq> None}"
  shows "grafted_names m S D X = grafted m S D"
proof
  fix q
  from r have wf: "wfm m" and empty: "\<forall>q. q \<noteq> [] \<longrightarrow> m (D @ q) = None"
    by (auto simp: copy_ready_def)
  show "grafted_names m S D X q = grafted m S D q"
  proof (cases "strict_prefix D q")
    case True
    then obtain x r' where q: "q = D @ x # r'" by (auto simp: strict_prefix_iff_child)
    show ?thesis
    proof (cases "x \<in> X")
      case True
      with q show ?thesis
        by (auto simp: grafted_names_def grafted_def prefix_child_iff strict_prefix_iff_child)
    next
      case False
      with X have none: "m (S @ [x]) = None" by simp
      have "m (S @ x # r') = None"
        using wfm_below_None [OF wf none, of r'] by simp
      moreover have "grafted_names m S D X q = None"
        using q gn_fresh [OF False empty, of S r'] by simp
      ultimately show ?thesis using q True by (simp add: grafted_def)
    qed
  next
    case False
    then have "\<not> prefix (D @ [x]) q" for x
      by (auto simp: strict_prefix_iff_child prefix_child_iff)
    with False show ?thesis by (simp add: grafted_names_def grafted_def)
  qed
qed

lemma copyFileSync_child:
  assumes "map_of t src = Some (File c)" "map_of t D = Some Dir" "map_of t (D @ [x]) = None"
  shows "\<exists>t1. copyFileSync src (D @ [x]) t = Inr t1 \<and> map_of t1 = (map_of t)(D @ [x] \<mapsto> File c)"
  using assms
  by (simp add: copyFileSync_def readFileSync_def writeFileSync_def update_conv' butlast_append)

lemma copyEntries_loop:
  assumes IH: "\<And>S' D' t1. copy_ready n S' D' (map_of t1) \<Longrightarrow>
                 \<exists>t2. copyDirectory n S' D' t1 = Some (Done t2) \<and>
                      map_of t2 = grafted (map_of t1) S' D'"
    and r: "copy_ready (Suc n) S D m"
  shows "distinct ks \<Longrightarrow> \<forall>k\<in>set ks. k \<noteq> [] \<and> butlast k = S \<and> m k \<noteq> None \<Longrightarrow>
         X \<inter> last ` set ks = {} \<Longrightarrow> map_of t = grafted_names m S D X \<Longrightarrow>
         \<exists>t'. copyEntries n S D
                 (map (\<lambda>k. \<lparr>entry_name = last k, is_directory = (m k = Some Dir)\<rparr>) ks) t
               = Some (Done t') \<and>
              map_of t' = grafted_names m S D (X \<union> last ` set ks)"
proof (induction ks arbitrary: t X)
  case Nil
  then show ?case by simp
next
  case (Cons k ks)
  define x where "x = last k"
  from Cons.prems(2) have "k \<noteq> []" "butlast k = S" and mk: "m k \<noteq> None" by auto
  then have k: "k = S @ [x]" unfolding x_def by (metis append_butlast_last_id)
  from Cons.prems(3) have xX: "x \<notin> X" unfolding x_def by auto
  have xks: "x \<notin> last ` set ks"
  proof
    assume "x \<in> last ` set ks"
    then obtain k' where k': "k' \<in> set ks" "last k' = x" by auto
    with Cons.prems(2) have "k' \<noteq> []" "butlast k' = S" by auto
    with k' have "k' = S @ [x]" by (metis append_butlast_last_id)
    with k have "k' = k" by simp
    with k' Cons.prems(1) show False by simp
  qed
  from r have ap: "\<not> prefix S D" "\<not> prefix D S"
    and empty: "\<forall>q. q \<noteq> [] \<longrightarrow> m (D @ q) = None"
    and D: "m D = Some Dir"
    by (auto simp: copy_ready_def)
  have cur: "map_of t = grafted_names m S D X" by (rule Cons.prems(4))
  have tD: "map_of t D = Some Dir" using D by (simp add: cur gn_above)
  have tx: "map_of t (D @ [x]) = None" using gn_fresh [OF xX empty, of S "[]"] by (simp add: cur)
  have tk: "map_of t (S @ [x]) = m (S @ [x])" using gn_source [OF ap, of m X "[x]"] by (simp add: cur)
  have rest: "distinct ks" "\<forall>k\<in>set ks. k \<noteq> [] \<and> butlast k = S \<and> m k \<noteq> None"
    "insert x X \<inter> last ` set ks = {}"
    using Cons.prems(1,2,3) xks by auto
  have final: "X \<union> last ` set (k # ks) = insert x X \<union> last ` set ks"
    unfolding x_def by auto
  show ?case
  proof (cases "m k = Some Dir")
    case True
    have "wfm (map_of t)" using wfm_gn [OF r] by (simp add: cur)
    from mkdirSync_child [OF this tD tx] obtain t1 where
      t1: "mkdirSync (D @ [x]) t = Inr t1" "map_of t1 = (map_of t)(D @ [x] \<mapsto> Dir)" by blast
    from True k have d: "m (S @ [x]) = Some Dir" by simp
    have "copy_ready n (S @ [x]) (D @ [x]) (map_of t1)"
      using ready_child [OF r xX d] by (simp add: t1 cur)
    from IH [OF this] obtain t2 where
      t2: "copyDirectory n (S @ [x]) (D @ [x]) t1 = Some (Done t2)"
        "map_of t2 = grafted (map_of t1) (S @ [x]) (D @ [x])" by blast
    have "map_of t2 = grafted_names m S D (insert x X)"
      using gn_insert_dir [OF r xX d] by (simp add: t2 t1 cur)
    from Cons.IH [OF rest this] obtain t' where
      "copyEntries n S D
         (map (\<lambda>k. \<lparr>entry_name = last k, is_directory = (m k = Some Dir)\<rparr>) ks) t2 = Some (Done t')"
      "map_of t' = grafted_names m S D (insert x X \<union> last ` set ks)" by blast
    with True t1 t2 show ?thesis
      by (simp add: x_def [symmetric] final)
  next
    case False
    with mk obtain c where "m k = Some (File c)"
      by (cases "m k") (auto intro: node.exhaust)
    with k have f: "m (S @ [x]) = Some (File c)" by simp
    with tk have "map_of t (S @ [x]) = Some (File c)" by simp
    from copyFileSync_child [OF this tD tx] obtain t1 where
      t1: "copyFileSync (S @ [x]) (D @ [x]) t = Inr t1"
        "map_of t1 = (map_of t)(D @ [x] \<mapsto> File c)" by blast
    have "map_of t1 = grafted_names m S D (insert x X)"
      using gn_insert_file [OF r xX f] by (simp add: t1 cur)
    from Cons.IH [OF rest this] obtain t' where
      "copyEntries n S D
         (map (\<lambda>k. \<lparr>entry_name = last k, is_directory = (m k = Some Dir)\<rparr>) ks) t1 = Some (Done t')"
      "map_of t' = grafted_names m S D (insert x X \<union> last ` set ks)" by blast
    with False t1 show ?thesis
      by (simp add: x_def [symmetric] final)
  qed
qed

lemma copyDirectory_grafts:
  "copy_ready n S D (map_of t) \<Longrightarrow>
   \<exists>t'. copyDirectory n S D t = Some (Done t') \<and> map_of t' = grafted (map_of t) S D"
proof (induction n arbitrary: S D t)
  case 0
  then have "map_of t (S @ []) \<noteq> None \<longrightarrow> length ([] :: path) < 0"
    unfolding copy_ready_def by blast
  with 0 show ?case by (simp add: copy_ready_def)
next
  case (Suc n)
  let ?m = "map_of t"
  let ?ks = "children S t"
  from Suc.prems have S: "?m S = Some Dir" by (simp add: copy_ready_def)
  have ks: "\<forall>k\<in>set ?ks. k \<noteq> [] \<and> butlast k = S \<and> ?m k \<noteq> None"
    by (simp add: set_children)
  have "\<exists>t'. copyEntries n S D
                 (map (\<lambda>k. \<lparr>entry_name = last k, is_directory = (?m k = Some Dir)\<rparr>) ?ks) t
               = Some (Done t') \<and>
              map_of t' = grafted_names ?m S D ({} \<union> last ` set ?ks)"
    by (rule copyEntries_loop [OF Suc.IH Suc.prems distinct_children ks])
       (simp_all add: grafted_names_def)
  then obtain t' where
    t': "copyEntries n S D
           (map (\<lambda>k. \<lparr>entry_name = last k, is_directory = (?m k = Some Dir)\<rparr>) ?ks) t = Some (Done t')"
      "map_of t' = grafted_names ?m S D (last ` set ?ks)" by auto
  have "last ` set ?ks = {x. ?m (S @ [x]) \<noteq> None}"
  proof (intro set_eqI iffI)
    fix x assume "x \<in> last ` set ?ks"
    then obtain k where "k \<in> set ?ks" "x = last k" by auto
    with ks have "k \<noteq> []" "butlast k = S" "?m k \<noteq> None" "x = last k" by auto
    then have "k = S @ [x]" "?m k \<noteq> None" by (metis append_butlast_last_id)+
    then show "x \<in> {x. ?m (S @ [x]) \<noteq> None}" by simp
  next
    fix x assume "x \<in> {x. ?m (S @ [x]) \<noteq> None}"
    then have "S @ [x] \<in> set ?ks" by (simp add: set_children)
    then have "last (S @ [x]) \<in> last ` set ?ks" by (rule imageI)
    then show "x \<in> last ` set ?ks" by simp
  qed
  from gn_all [OF Suc.prems this] t' S show ?case
    by (simp add: readdirSync_def)
qed

lemma copy_fuel_mono:
  "(\<forall>r n'. copyDirectory n src dest t = Some r \<longrightarrow> n \<le> n' \<longrightarrow> copyDirectory n' src dest t = Some r)"
  "(\<forall>r n'. copyEntries n src dest es t = Some r \<longrightarrow> n \<le> n' \<longrightarrow> copyEntries n' src dest es t = Some r)"
proof (induction n src dest t and n src dest es t rule: copyDirectory_copyEntries.induct)
  case (1 src dest t)
  then show ?case by simp
next
  case (2 n src dest t)
  show ?case
  proof (intro allI impI)
    fix r n' assume run: "copyDirectory (Suc n) src dest t = Some r" and le: "Suc n \<le> n'"
    then obtain k where n': "n' = Suc k" and k: "n \<le> k" by (cases n') auto
    show "copyDirectory n' src dest t = Some r"
    proof (cases "readdirSync src t")
      case (Inl e)
      with run n' show ?thesis by simp
    next
      case (Inr entries)
      with run have "copyEntries n src dest entries t = Some r" by simp
      with 2 [OF Inr] k have "copyEntries k src dest entries t = Some r" by blast
      with Inr n' show ?thesis by simp
    qed
  qed
next
  case (3 n src dest t)
  then show ?case by simp
next
  case (4 n src dest entry entries t)
  show ?case
  proof (intro allI impI)
    fix r n' assume run: "copyEntries n src dest (entry # entries) t = Some r" and le: "n \<le> n'"
    show "copyEntries n' src dest (entry # entries) t = Some r"
    proof (cases "is_directory entry")
      case True
      show ?thesis
      proof (cases "mkdirSync (dest @ [entry_name entry]) t")
        case (Inl e)
        with run True show ?thesis by simp
      next
        case (Inr t1)
        show ?thesis
        proof (cases "copyDirectory n (src @ [entry_name entry]) (dest @ [entry_name entry]) t1")
          case None
          with run True Inr show ?thesis by simp
        next
          case (Some res)
          with "4.IH"(1) [OF refl refl True Inr] le
          have up: "copyDirectory n' (src @ [entry_name entry]) (dest @ [entry_name entry]) t1 = Some res"
            by blast
          show ?thesis
          proof (cases res)
            case (Failed e t2)
            with run True Inr Some up show ?thesis by auto
          next
            case (Done t2)
            with run True Inr Some have "copyEntries n src dest entries t2 = Some r" by simp
            with "4.IH"(2) [OF refl refl True Inr Some Done] le
            have "copyEntries n' src dest entries t2 = Some r" by blast
            with True Inr up Done show ?thesis by simp
          qed
        qed
      qed
    next
      case False
      show ?thesis
      proof (cases "copyFileSync (src @ [entry_name entry]) (dest @ [entry_name entry]) t")
        case (Inl e)
        with run False show ?thesis by simp
      next
        case (Inr t1)
        with run False have "copyEntries n src dest entries t1 = Some r" by simp
        with "4.IH"(3) [OF refl refl False Inr] le
        have "copyEntries n' src dest entries t1 = Some r" by blast
        with False Inr show ?thesis by simp
      qed
    qed
  qed
qed


lemma mkdirSync_keeps:
  "mkdirSync p t = Inr t' \<Longrightarrow> map_of t k = Some Dir \<Longrightarrow> map_of t' k = Some Dir"
  by (simp add: mkdirSync_map_of)

lemma copyFileSync_keeps:
  "copyFileSync s d t = Inr t' \<Longrightarrow> map_of t k = Some Dir \<Longrightarrow> map_of t' k = Some Dir"
  by (auto simp: copyFileSync_def writeFileSync_def update_conv'
      split: sum.splits option.splits node.splits if_splits)

lemma copyEntries_Cons_Done:
  assumes "copyEntries n src dest (entry # entries) t = Some (Done t')"
  obtains (subdir) t1 t2 where "is_directory entry"
      "mkdirSync (dest @ [entry_name entry]) t = Inr t1"
      "copyDirectory n (src @ [entry_name entry]) (dest @ [entry_name entry]) t1 = Some (Done t2)"
      "copyEntries n src dest entries t2 = Some (Done t')"
  | (plain) t1 where "\<not> is_directory entry"
      "copyFileSync (src @ [entry_name entry]) (dest @ [entry_name entry]) t = Inr t1"
      "copyEntries n src dest entries t1 = Some (Done t')"
  using assms
  by (auto simp: Let_def split: if_splits sum.splits option.splits copy_result.splits)

lemma copy_keeps_dirs:
  "(\<forall>t'. copyDirectory n src dest t = Some (Done t') \<longrightarrow> map_of t k = Some Dir
        \<longrightarrow> map_of t' k = Some Dir)"
  "(\<forall>t'. copyEntries n src dest es t = Some (Done t') \<longrightarrow> map_of t k = Some Dir
        \<longrightarrow> map_of t' k = Some Dir)"
proof (induction n src dest t and n src dest es t rule: copyDirectory_copyEntries.induct)
  case (1 src dest t)
  then show ?case by simp
next
  case (2 n src dest t)
  then show ?case by (auto split: sum.splits)
next
  case (3 n src dest t)
  then show ?case by simp
next
  case (4 n src dest entry entries t)
  show ?case
  proof (intro allI impI)
    fix t' assume run: "copyEntries n src dest (entry # entries) t = Some (Done t')"
      and k: "map_of t k = Some Dir"
    show "map_of t' k = Some Dir"
      using run
    proof (cases rule: copyEntries_Cons_Done)
      case (subdir t1 t2)
      from mkdirSync_keeps [OF subdir(2) k] "4.IH"(1) [OF refl refl subdir(1,2)] subdir(3)
      have "map_of t2 k = Some Dir" by blast
      with "4.IH"(2) [OF refl refl subdir(1,2,3) refl] subdir(4) show ?thesis by blast
    next
      case (plain t1)
      from copyFileSync_keeps [OF plain(2) k] "4.IH"(3) [OF refl refl plain(1,2)] plain(3)
      show ?thesis by blast
    qed
  qed
qed

lemma mkdirSync_prefix_Dir:
  assumes "mkdirSync p t = Inr t'" "prefix q p"
  shows "map_of t' q = Some Dir"
proof -
  have "map_of t q \<noteq> Some (File c)" for c
    using mkdir_each_no_file [of p "prefixes p" t t' q c] assms
    by (simp add: mkdirSync_def in_set_prefixes)
  then have "map_of t q = None \<or> map_of t q = Some Dir"
    by (cases "map_of t q") (auto intro: node.exhaust)
  with assms(2) mkdirSync_map_of [OF assms(1), of q] show ?thesis by auto
qed

lemma copyEntries_inside:
  assumes outer: "\<And>S r t t'. r \<noteq> [] \<Longrightarrow> \<forall>q. prefix q r \<longrightarrow> map_of t (S @ q) = Some Dir \<Longrightarrow>
                    copyDirectory n S (S @ r) t \<noteq> Some (Done t')"
    and x: "map_of t0 (S @ [x]) = Some Dir"
  shows "S @ [x] \<in> set ks \<Longrightarrow> \<forall>q. prefix q (x # r') \<longrightarrow> map_of tc (S @ q) = Some Dir \<Longrightarrow>
         copyEntries n S (S @ x # r')
           (map (\<lambda>k. \<lparr>entry_name = last k, is_directory = (map_of t0 k = Some Dir)\<rparr>) ks) tc
         \<noteq> Some (Done t')"
proof (induction ks arbitrary: tc)
  case Nil
  then show ?case by simp
next
  case (Cons k ks)
  let ?es = "map (\<lambda>k. \<lparr>entry_name = last k, is_directory = (map_of t0 k = Some Dir)\<rparr>) ks"
  show ?case
  proof
    assume "copyEntries n S (S @ x # r')
              (map (\<lambda>k. \<lparr>entry_name = last k, is_directory = (map_of t0 k = Some Dir)\<rparr>) (k # ks)) tc
            = Some (Done t')"
    then have run: "copyEntries n S (S @ x # r')
              (\<lparr>entry_name = last k, is_directory = (map_of t0 k = Some Dir)\<rparr> # ?es) tc
            = Some (Done t')" by simp
    from run show False
    proof (cases rule: copyEntries_Cons_Done)
      case (subdir t1 t2)
      then have mk: "mkdirSync ((S @ x # r') @ [last k]) tc = Inr t1"
        and sub: "copyDirectory n (S @ [last k]) ((S @ x # r') @ [last k]) t1 = Some (Done t2)"
        and rest: "copyEntries n S (S @ x # r') ?es t2 = Some (Done t')"
        by simp_all
      show False
      proof (cases "k = S @ [x]")
        case True
        then have lk: "last k = x" by simp
        have "\<forall>q. prefix q (r' @ [x]) \<longrightarrow> map_of t1 ((S @ [x]) @ q) = Some Dir"
        proof (intro allI impI)
          fix q assume "prefix q (r' @ [x])"
          then consider "prefix q r'" | "q = r' @ [x]" by (auto simp: prefix_snoc)
          then show "map_of t1 ((S @ [x]) @ q) = Some Dir"
          proof cases
            case 1
            then have "prefix (x # q) (x # r')" by simp
            with Cons.prems(2) have "map_of tc (S @ x # q) = Some Dir" by blast
            with mkdirSync_keeps [OF mk] show ?thesis by simp
          next
            case 2
            with mkdirSync_prefix_Dir [OF mk, of "(S @ x # r') @ [x]"] lk show ?thesis by simp
          qed
        qed
        from outer [OF _ this, of t2] sub lk show False by simp
      next
        case False
        with Cons.prems(1) have mem: "S @ [x] \<in> set ks" by simp
        have "\<forall>q. prefix q (x # r') \<longrightarrow> map_of t2 (S @ q) = Some Dir"
          using Cons.prems(2) mkdirSync_keeps [OF mk] copy_keeps_dirs(1) sub by blast
        from Cons.IH [OF mem this] rest show False by simp
      qed
    next
      case (plain t1)
      then have "k \<noteq> S @ [x]" using x by auto
      with Cons.prems(1) have mem: "S @ [x] \<in> set ks" by simp
      have "\<forall>q. prefix q (x # r') \<longrightarrow> map_of t1 (S @ q) = Some Dir"
        using Cons.prems(2) copyFileSync_keeps plain(2) by blast
      from Cons.IH [OF mem this] plain(3) show False by simp
    qed
  qed
qed

lemma copyDirectory_inside:
  "r \<noteq> [] \<Longrightarrow> \<forall>q. prefix q r \<longrightarrow> map_of t (S @ q) = Some Dir \<Longrightarrow>
   copyDirectory n S (S @ r) t \<noteq> Some (Done t')"
proof (induction n arbitrary: S r t t')
  case 0
  then show ?case by simp
next
  case (Suc n)
  from Suc.prems(1) obtain x r' where r: "r = x # r'" by (cases r) auto
  from Suc.prems(2) r have S: "map_of t S = Some Dir" and x: "map_of t (S @ [x]) = Some Dir"
    by (auto dest: spec [of _ "[]"] spec [of _ "[x]"])
  have mem: "S @ [x] \<in> set (children S t)" using x by (simp add: set_children)
  have "copyEntries n S (S @ x # r')
           (map (\<lambda>k. \<lparr>entry_name = last k, is_directory = (map_of t k = Some Dir)\<rparr>)
              (children S t)) t \<noteq> Some (Done t')"
    using Suc.prems(2) r by (intro copyEntries_inside [OF Suc.IH x mem]) auto
  with S r show ?case by (simp add: readdirSync_def)
qed

lemma grafted_self: "grafted m p p = m"
proof
  fix q
  show "grafted m p p q = m q"
    by (auto simp: grafted_def strict_prefix_iff_child)
qed

lemma children_empty:
  assumes "\<forall>q. q \<noteq> [] \<longrightarrow> map_of t (p @ q) = None"
  shows "children p t = []"
proof -
  have "k \<notin> set (children p t)" for k
  proof
    assume "k \<in> set (children p t)"
    then have "map_of t k \<noteq> None" "k \<noteq> []" "butlast k = p" by (auto simp: set_children)
    then have "map_of t (p @ [last k]) \<noteq> None" by (metis append_butlast_last_id)
    with assms show False by simp
  qed
  then show ?thesis by (cases "children p t") auto
qed

lemma copy_fresh_directory:
  assumes wf: "wfm (map_of t)" and p: "map_of t p = Some Dir"
    and empty: "\<forall>q. q \<noteq> [] \<longrightarrow> map_of t (p @ q) = None"
    and T: "map_of t T = Some Dir"
  shows "copyDirectory fuel T p t = Some (Done t') \<Longrightarrow> map_of t' = grafted (map_of t) T p"
    and "\<not> strict_prefix T p \<Longrightarrow> fs_depth t < fuel \<Longrightarrow>
           \<exists>t'. copyDirectory fuel T p t = Some (Done t')"
    and "strict_prefix T p \<Longrightarrow> copyDirectory fuel T p t \<noteq> Some (Done t')"
proof -
  have inside: "copyDirectory n T p t \<noteq> Some (Done t'')" if "strict_prefix T p" for n t''
  proof -
    from that obtain x r where r: "p = T @ x # r" by (auto simp: strict_prefix_iff_child)
    have "\<forall>q. prefix q (x # r) \<longrightarrow> map_of t (T @ q) = Some Dir"
    proof (intro allI impI)
      fix q assume "prefix q (x # r)"
      then obtain s where s: "x # r = q @ s" by (auto simp: prefix_def)
      show "map_of t (T @ q) = Some Dir"
      proof (cases "s = []")
        case True
        with s r p show ?thesis by simp
      next
        case False
        with wfm_prefix_Dir [OF wf, of "T @ q" s] s r p show ?thesis by simp
      qed
    qed
    from copyDirectory_inside [OF _ this, of n t''] r show ?thesis by simp
  qed
  have same: "\<exists>t''. copyDirectory n T p t = Some (Done t'') \<and> map_of t'' = grafted (map_of t) T p"
    if "T = p" "0 < n" for n
  proof -
    from that(2) obtain k where "n = Suc k" by (cases n) auto
    with that(1) p children_empty [OF empty] show ?thesis
      by (simp add: readdirSync_def grafted_self)
  qed
  have apart: "\<exists>t''. copyDirectory n T p t = Some (Done t'') \<and> map_of t'' = grafted (map_of t) T p"
    if np: "\<not> prefix T p" and n: "fs_depth t < n" for n
  proof -
    have "\<not> prefix p T"
    proof
      assume "prefix p T"
      then obtain q where q: "T = p @ q" by (auto simp: prefix_def)
      with np have "q \<noteq> []" by auto
      with empty q T show False by simp
    qed
    moreover have "\<forall>q. map_of t (T @ q) \<noteq> None \<longrightarrow> length q < n"
    proof (intro allI impI)
      fix q assume "map_of t (T @ q) \<noteq> None"
      then have "length (T @ q) \<le> fs_depth t" by (rule fs_depth_bound)
      with n show "length q < n" by simp
    qed
    ultimately have "copy_ready n T p (map_of t)"
      using wf p empty T np unfolding copy_ready_def by blast
    then show ?thesis by (rule copyDirectory_grafts)
  qed
  have total: "\<exists>t''. copyDirectory n T p t = Some (Done t'') \<and> map_of t'' = grafted (map_of t) T p"
    if "\<not> strict_prefix T p" "fs_depth t < n" for n
    using that same [of n] apart [of n] by (cases "T = p") (auto simp: strict_prefix_def)
  show "\<exists>t'. copyDirectory fuel T p t = Some (Done t')"
    if "\<not> strict_prefix T p" "fs_depth t < fuel"
    using total [OF that] by blast
  show "copyDirectory fuel T p t \<noteq> Some (Done t')" if "strict_prefix T p"
    using inside [OF that] .
  show "map_of t' = grafted (map_of t) T p" if run: "copyDirectory fuel T p t = Some (Done t')"
  proof -
    from run inside have ns: "\<not> strict_prefix T p" by blast
    let ?n = "max fuel (Suc (fs_depth t))"
    have "fs_depth t < ?n" by simp
    from total [OF ns this] obtain t'' where
      t'': "copyDirectory ?n T p t = Some (Done t'')" "map_of t'' = grafted (map_of t) T p"
      by auto
    from copy_fuel_mono(1) [of fuel T p t] run have "copyDirectory ?n T p t = Some (Done t')"
      by simp
    with t'' show ?thesis by simp
  qed
qed

lemma copyTemplateFiles_Ok:
  assumes "copyTemplateFiles env fuel p ty w1 = Some (Ok w2)"
    and "map_of (files w1) (template_path env ty) = Some Dir"
  obtains t' where "copyDirectory fuel (template_path env ty) p (files w1) = Some (Done t')"
    "w2 = emit [LogSuccess (js ''Copied template files for '' @ ty)] (w1\<lparr>files := t'\<rparr>)"
  using assms
  by (auto simp: copyTemplateFiles_def existsSync_def split: option.splits copy_result.splits)

text \<open>
  C2.  Let the destination be freshly created in a well-formed file system, and let the
  template path be a directory.  Whenever the copy step returns, a file is in the
  project at a relative path exactly when the template has a file there, with the same
  contents, and nothing outside the project directory has changed.  The step does return
  (with any fuel beyond the depth of the file system) unless the destination lies
  strictly inside the template tree; there the recursion of \<open>copyDirectory\<close> follows the
  directories it creates and no fuel lets the step return, so that no state after the
  copy exists (the run of the script goes on until the operating system refuses a path).
\<close>

theorem template_copy_exact:
  assumes "wf_fs (files w)"
    and "createProjectDirectory n w = Ok w1"
    and "map_of (files w1) (template_path env ty) = Some Dir"
  shows "(\<forall>fuel w2. copyTemplateFiles env fuel (segments n) ty w1 = Some (Ok w2) \<longrightarrow>
            (\<forall>rel c. map_of (files w2) (segments n @ rel) = Some (File c) \<longleftrightarrow>
                      map_of (files w1) (template_path env ty @ rel) = Some (File c)) \<and>
            (\<forall>q. \<not> strict_prefix (segments n) q \<longrightarrow>
                   map_of (files w2) q = map_of (files w1) q)) \<and>
         (\<not> strict_prefix (template_path env ty) (segments n) \<longrightarrow>
            (\<forall>fuel. fs_depth (files w1) < fuel \<longrightarrow>
               (\<exists>w2. copyTemplateFiles env fuel (segments n) ty w1 = Some (Ok w2)))) \<and>
         (strict_prefix (template_path env ty) (segments n) \<longrightarrow>
            (\<forall>fuel w2. copyTemplateFiles env fuel (segments n) ty w1 \<noteq> Some (Ok w2)))"
proof -
  let ?T = "template_path env ty"
  let ?p = "segments n"
  from assms(2) obtain t where
    none: "map_of (files w) ?p = None" and t: "mkdirSync ?p (files w) = Inr t"
    and w1: "w1 = emit [LogSuccess (js ''Created project directory: '' @ pathname_str n)]
                    (w\<lparr>files := t\<rparr>)"
    by (rule createProjectDirectory_cases)
  from none have fresh: "\<not> existsSync ?p (files w)"
    by (simp add: existsSync_def)
  from w1 have f1: "files w1 = t" by simp
  have wf: "wfm (map_of t)"
    using assms(1) t by (auto simp: wf_fs_wfm intro: wfm_mkdirSync)
  have pd: "map_of t ?p = Some Dir" and empty: "\<forall>q. q \<noteq> [] \<longrightarrow> map_of t (?p @ q) = None"
    using fresh_directory_empty [OF assms(1) fresh t] by auto
  have T: "map_of t ?T = Some Dir" using assms(3) f1 by simp
  note copy = copy_fresh_directory [OF wf pd empty T]
  have exact: "(\<forall>rel c. map_of (files w2) (?p @ rel) = Some (File c) \<longleftrightarrow>
                      map_of (files w1) (?T @ rel) = Some (File c)) \<and>
               (\<forall>q. \<not> strict_prefix ?p q \<longrightarrow> map_of (files w2) q = map_of (files w1) q)"
    if run: "copyTemplateFiles env fuel ?p ty w1 = Some (Ok w2)" for fuel w2
  proof -
    from run assms(3) obtain t' where
      t': "copyDirectory fuel ?T ?p (files w1) = Some (Done t')"
      and w2: "w2 = emit [LogSuccess (js ''Copied template files for '' @ ty)] (w1\<lparr>files := t'\<rparr>)"
      by (rule copyTemplateFiles_Ok)
    from copy(1) [of fuel t'] t' f1 have g: "map_of t' = grafted (map_of t) ?T ?p" by simp
    have "map_of (files w2) (?p @ rel) = Some (File c) \<longleftrightarrow>
          map_of (files w1) (?T @ rel) = Some (File c)" for rel c
    proof (cases "rel = []")
      case True
      with pd T show ?thesis by (simp add: w2 g f1 grafted_def)
    next
      case False
      then have "strict_prefix ?p (?p @ rel)" by (auto simp: strict_prefix_def)
      then show ?thesis by (simp add: w2 g f1 grafted_def)
    qed
    moreover have "map_of (files w2) q = map_of (files w1) q" if "\<not> strict_prefix ?p q" for q
      using that by (simp add: w2 g f1 grafted_def)
    ultimately show ?thesis by blast
  qed
  have returns: "\<exists>w2. copyTemplateFiles env fuel ?p ty w1 = Some (Ok w2)"
    if "\<not> strict_prefix ?T ?p" "fs_depth (files w1) < fuel" for fuel
  proof -
    from copy(2) [of fuel] that f1 obtain t' where
      "copyDirectory fuel ?T ?p t = Some (Done t')" by auto
    with T f1 show ?thesis by (simp add: copyTemplateFiles_def existsSync_def)
  qed
  have never: "copyTemplateFiles env fuel ?p ty w1 \<noteq> Some (Ok w2)"
    if "strict_prefix ?T ?p" for fuel w2
  proof
    assume "copyTemplateFiles env fuel ?p ty w1 = Some (Ok w2)"
    from this assms(3) obtain t' where
      "copyDirectory fuel ?T ?p (files w1) = Some (Done t')"
      by (rule copyTemplateFiles_Ok)
    with copy(3) [OF that, of fuel t'] f1 show False by simp
  qed
  from exact returns never show ?thesis by blast
qed

lemma kit_wf: "wf_fs kit_fs"
  by (simp add: wf_fs_def kit_fs_def)

lemma kit_mkdir:
  "mkdirSync [js ''work'', js ''app''] kit_fs = Inr (kit_fs @ [([js ''work'', js ''app''], Dir)])"
  by (simp add: mkdirSync_def kit_fs_def)

lemma kit_create:
  "createProjectDirectory (project_path demo_env demo_answers) \<lparr>files = kit_fs, events = []\<rparr>
     = Ok kit_created"
proof -
  have "map_of kit_fs [js ''work'', js ''app''] = None"
    by (simp add: kit_fs_def)
  then show ?thesis
    by (simp add: createProjectDirectory_def existsSync_name_def mkdirSync_name_def demo_no_nul
        demo_path demo_path_str kit_mkdir kit_created_def emit_def js_append [symmetric])
qed

lemma kit_copy:
  "copyTemplateFiles demo_env 6 [js ''work'', js ''app''] (js ''basic-crud'') kit_created
     = Some (Ok kit_copied)"
  by (simp add: copyTemplateFiles_def demo_template existsSync_def kit_created_def kit_fs_def
      kit_copied_def emit_def readdirSync_def children_def mkdirSync_def copyFileSync_def
      readFileSync_def writeFileSync_def eval_nat_numeral js_append [symmetric])

lemma kit_template:
  "map_of (files kit_created) (template_path demo_env (js ''basic-crud'')) = Some Dir"
  by (simp add: demo_template kit_created_def kit_fs_def)

text \<open>
  The theorem at the example kit: the copy with fuel 6 returns the state written out in
  \<open>kit_copied\<close>, whose project files are those of the template.
\<close>

theorem template_copy_exact_witness:
  "wf_fs kit_fs \<and>
   createProjectDirectory (project_path demo_env demo_answers) \<lparr>files = kit_fs, events = []\<rparr>
     = Ok kit_created \<and>
   copyTemplateFiles demo_env 6 [js ''work'', js ''app''] (js ''basic-crud'') kit_created
     = Some (Ok kit_copied) \<and>
   (\<forall>rel c. map_of (files kit_copied) ([js ''work'', js ''app''] @ rel) = Some (File c) \<longleftrightarrow>
             map_of (files kit_created) ([js ''kit'', js ''templates'', js ''basic-crud''] @ rel)
               = Some (File c)) \<and>
   map_of (files kit_copied) [js ''work'', js ''app'', js ''components'', js ''ItemList.tsx'']
     = Some (File (js ''export default ItemList''))"
proof -
  have wf: "wf_fs (files \<lparr>files = kit_fs, events = []\<rparr>)" using kit_wf by simp
  have seg: "segments (project_path demo_env demo_answers) = [js ''work'', js ''app'']"
    by (simp add: demo_dir)
  from template_copy_exact [OF wf kit_create kit_template] kit_copy
  have "\<forall>rel c. map_of (files kit_copied) ([js ''work'', js ''app''] @ rel) = Some (File c) \<longleftrightarrow>
             map_of (files kit_created) (template_path demo_env (js ''basic-crud'') @ rel)
               = Some (File c)"
    unfolding seg by blast
  moreover have "map_of (files kit_copied) [js ''work'', js ''app'', js ''components'', js ''ItemList.tsx'']
     = Some (File (js ''export default ItemList''))"
    by (simp add: kit_copied_def kit_fs_def)
  ultimately show ?thesis
    using kit_wf kit_create kit_copy by (simp add: demo_template)
qed

end
